theory Spec2Isabelle
  imports Complex_Main "HOL-Library.Countable"
begin

section \<open>JavaScript values\<close>

text \<open>
  The request bodies of \<^verbatim>\<open>src/server.js\<close> are produced by \<^verbatim>\<open>express.json()\<close> and
  \<^verbatim>\<open>express.urlencoded()\<close>: their fields are arbitrary JSON values, and a field that is
  absent reads as \<^verbatim>\<open>undefined\<close>. The handlers apply two JavaScript operations to them:
  the truthiness test of \<^verbatim>\<open>!x\<close> and \<^verbatim>\<open>x || y\<close>, and strict equality \<^verbatim>\<open>===\<close>. A finite
  double is a rational number; only its being zero and its identity are ever looked at.
\<close>

datatype jsval =
    JUndefined
  | JNull
  | JBool bool
  | JNum rat
  | JStr string
  | JArr "jsval list"
  | JObj "(string \<times> jsval) list"

text \<open>The values can be numbered, so that a token can carry one.\<close>

instance jsval :: countable
  by countable_datatype

fun truthy :: "jsval \<Rightarrow> bool" where
  "truthy JUndefined = False"
| "truthy JNull = False"
| "truthy (JBool b) = b"
| "truthy (JNum n) = (n \<noteq> 0)"
| "truthy (JStr s) = (s \<noteq> [])"
| "truthy (JArr xs) = True"
| "truthy (JObj kvs) = True"

text \<open>
  \<^verbatim>\<open>a === b\<close>. Arrays and objects are compared by reference; the two sides of every
  comparison in the server come from two different requests (a stored record against
  the request in hand), so two arrays or two objects are never the same object.
\<close>

fun strict_eq :: "jsval \<Rightarrow> jsval \<Rightarrow> bool" where
  "strict_eq JUndefined JUndefined = True"
| "strict_eq JNull JNull = True"
| "strict_eq (JBool a) (JBool b) = (a = b)"
| "strict_eq (JNum a) (JNum b) = (a = b)"
| "strict_eq (JStr a) (JStr b) = (a = b)"
| "strict_eq _ _ = False"

text \<open>
  Whether the conversion to a string that a template literal makes, \<^verbatim>\<open>`${v}`\<close>, throws a
  \<^verbatim>\<open>TypeError\<close>. A parsed object never holds a function, so an own property
  \<^verbatim>\<open>toString\<close> hides the inherited method with something that cannot be called, and
  the inherited \<^verbatim>\<open>valueOf\<close> (or an own one) gives no primitive either. An array is joined,
  which converts each of its elements but \<^verbatim>\<open>undefined\<close> and \<^verbatim>\<open>null\<close> in the same way.
  Every other value has a string.
\<close>

fun to_string_throws :: "jsval \<Rightarrow> bool" where
  "to_string_throws (JObj kvs) = (''toString'' \<in> set (map fst kvs))"
| "to_string_throws (JArr xs) = list_ex to_string_throws xs"
| "to_string_throws v = False"

text \<open>
  \<^verbatim>\<open>req.body\<close> as property lookup: \<open>b ''email''\<close> is \<^verbatim>\<open>req.body.email\<close>. The two body
  parsers leave \<^verbatim>\<open>req.body\<close> an object, the empty one for a request without a body.
\<close>

type_synonym body = "string \<Rightarrow> jsval"

definition empty_body :: body where
  "empty_body = (\<lambda>k. JUndefined)"

section \<open>The in-memory collections\<close>

text \<open>
  Dates are kept as the clock reading (milliseconds) that \<^verbatim>\<open>new Date()\<close> saw;
  \<^verbatim>\<open>toISOString()\<close> only renders that reading.
\<close>

record user =
  user_id :: string
  user_email :: jsval
  user_name :: jsval
  user_password :: string
  user_role :: string
  user_createdAt :: nat

record workflow =
  wf_id :: string
  wf_userId :: string
  wf_name :: jsval
  wf_description :: jsval
  wf_trigger :: jsval
  wf_actions :: jsval
  wf_status :: string
  wf_templateId :: "string option"
  wf_createdAt :: nat
  wf_updatedAt :: nat

record integration =
  in_id :: string
  in_userId :: "string option"
  in_name :: jsval
  in_type :: jsval
  in_config :: jsval
  in_status :: string
  in_description :: "string option"
  in_createdAt :: "nat option"

record template =
  tp_id :: string
  tp_name :: string
  tp_description :: string
  tp_category :: string
  tp_triggers :: "string list"
  tp_actions :: "string list"
  tp_price :: nat

text \<open>
  The lines of \<^verbatim>\<open>execution.logs\<close>, each kept as its template and its argument:
  \<^verbatim>\<open>`Execution started for workflow: ${workflow.name}`\<close>,
  \<^verbatim>\<open>'Execution completed successfully'\<close> and \<^verbatim>\<open>`Processed ${n} items`\<close>.
\<close>

datatype log_line =
    ExecutionStarted jsval
  | ExecutionCompleted
  | Processed int

record execution =
  ex_id :: string
  ex_userId :: string
  ex_workflowId :: string
  ex_status :: string
  ex_startedAt :: nat
  ex_completedAt :: "nat option"
  ex_logs :: "log_line list"

text \<open>
  What is still outstanding on the event loop: a promise of \<^verbatim>\<open>bcrypt\<close> that a handler
  awaits, with the variables the rest of the handler has captured, or an armed timer.
  The timer holds the position of its execution record in \<^verbatim>\<open>executions\<close> (the array is
  only ever appended to, so the position names the object) and the clock reading from
  which it may fire.
\<close>

datatype task =
    SeedAdmin
  | RegisterHash jsval jsval jsval
  | LoginCompare user jsval
  | ExecutionTimer nat nat

record state =
  users :: "user list"
  workflows :: "workflow list"
  executions :: "execution list"
  integrations :: "integration list"
  pending :: "task list"

definition seeded_integrations :: "integration list" where
  "seeded_integrations =
    [\<lparr>in_id = ''github-1'', in_userId = None, in_name = JStr ''GitHub'', in_type = JStr ''github'',
      in_config = JUndefined, in_status = ''active'',
      in_description = Some ''GitHub repository management and automation'', in_createdAt = None\<rparr>,
     \<lparr>in_id = ''slack-1'', in_userId = None, in_name = JStr ''Slack'', in_type = JStr ''slack'',
      in_config = JUndefined, in_status = ''active'',
      in_description = Some ''Slack messaging and notifications'', in_createdAt = None\<rparr>,
     \<lparr>in_id = ''openai-1'', in_userId = None, in_name = JStr ''OpenAI'', in_type = JStr ''openai'',
      in_config = JUndefined, in_status = ''active'',
      in_description = Some ''AI-powered content generation and analysis'', in_createdAt = None\<rparr>,
     \<lparr>in_id = ''aws-1'', in_userId = None, in_name = JStr ''AWS'', in_type = JStr ''aws'',
      in_config = JUndefined, in_status = ''active'',
      in_description = Some ''Amazon Web Services integration'', in_createdAt = None\<rparr>,
     \<lparr>in_id = ''stripe-1'', in_userId = None, in_name = JStr ''Stripe'', in_type = JStr ''stripe'',
      in_config = JUndefined, in_status = ''active'',
      in_description = Some ''Payment processing and subscription management'',
      in_createdAt = None\<rparr>]"

text \<open>\<^verbatim>\<open>templates\<close> is never assigned or mutated after its declaration.\<close>

definition templates :: "template list" where
  "templates =
    [\<lparr>tp_id = ''email-automation-1'', tp_name = ''Email Marketing Automation'',
      tp_description = ''Automated email sequences for lead nurturing'',
      tp_category = ''Marketing'', tp_triggers = [''webhook'', ''schedule''],
      tp_actions = [''email'', ''crm_update''], tp_price = 99\<rparr>,
     \<lparr>tp_id = ''social-media-1'', tp_name = ''Social Media Cross-posting'',
      tp_description = ''Post content across multiple social platforms'',
      tp_category = ''Social Media'', tp_triggers = [''manual'', ''schedule''],
      tp_actions = [''twitter_post'', ''linkedin_post'', ''facebook_post''], tp_price = 149\<rparr>]"

definition init_state :: state where
  "init_state = \<lparr>users = [], workflows = [], executions = [],
     integrations = seeded_integrations, pending = []\<rparr>"

section \<open>The platform and the libraries\<close>

text \<open>
  \<^verbatim>\<open>bcryptjs\<close> and \<^verbatim>\<open>jsonwebtoken\<close> are not code of this repository; the server is
  modelled over any implementation of the four calls it makes. \<open>bcrypt_hash p rounds salt\<close>
  is the hash \<^verbatim>\<open>bcrypt.hash(p, rounds)\<close> resolves to when the library draws \<open>salt\<close>;
  \<open>jwt_sign payload secret expiresIn clock\<close> and \<open>jwt_verify token secret clock\<close> take the
  clock reading the library sees. \<open>double_times a b\<close> is the product \<^verbatim>\<open>a * b\<close> of two doubles
  as the platform computes it, a double again. The only payloads the server signs are the user id, the
  email and the role of a stored user, and a token that verifies under the secret carries a
  payload that was signed under it, so \<^verbatim>\<open>req.user\<close> has that shape.
\<close>

record jwt_payload =
  jp_userId :: string
  jp_email :: jsval
  jp_role :: string

record libs =
  bcrypt_hash :: "string \<Rightarrow> nat \<Rightarrow> string \<Rightarrow> string"
  bcrypt_compare :: "string \<Rightarrow> string \<Rightarrow> bool"
  jwt_sign :: "jwt_payload \<Rightarrow> string \<Rightarrow> string \<Rightarrow> nat \<Rightarrow> string"
  jwt_verify :: "string \<Rightarrow> string \<Rightarrow> nat \<Rightarrow> jwt_payload option"
  double_times :: "rat \<Rightarrow> rat \<Rightarrow> rat"

text \<open>
  The values the platform hands to one run of a handler or callback: the result of
  \<^verbatim>\<open>uuidv4()\<close>, the readings of \<^verbatim>\<open>new Date()\<close> (a second reading for a handler that
  takes two), the clock the libraries and the timers see, the salt \<^verbatim>\<open>bcrypt\<close> drew and
  the result of \<^verbatim>\<open>Math.random()\<close>.
\<close>

record env =
  uuid :: string
  date :: nat
  date2 :: nat
  clock :: nat
  salt :: string
  random :: rat

text \<open>\<^verbatim>\<open>process.env.JWT_SECRET || 'autoflow-secret-key-change-in-production'\<close>\<close>

definition JWT_SECRET :: "string option \<Rightarrow> string" where
  "JWT_SECRET env_secret =
     (case env_secret of
        None \<Rightarrow> ''autoflow-secret-key-change-in-production''
      | Some v \<Rightarrow> if v = [] then ''autoflow-secret-key-change-in-production'' else v)"

text \<open>
  The contract of \<^verbatim>\<open>jsonwebtoken\<close> between a token signed at the clock reading \<open>issued\<close>
  and its verification at the clock reading \<open>now\<close>, while it has not expired: whatever
  the payload and the secret, the token is not empty, holds no space (it is three
  base64url parts joined by dots), and verifies under the same secret to the payload that
  was signed.
\<close>

definition jwt_round_trip :: "libs \<Rightarrow> nat \<Rightarrow> nat \<Rightarrow> bool" where
  "jwt_round_trip L issued now \<longleftrightarrow>
     (\<forall>p secret.
        jwt_sign L p secret ''24h'' issued \<noteq> []
        \<and> CHR '' '' \<notin> set (jwt_sign L p secret ''24h'' issued)
        \<and> jwt_verify L (jwt_sign L p secret ''24h'' issued) secret now = Some p)"

section \<open>Responses\<close>

record user_view =
  uv_id :: string
  uv_email :: jsval
  uv_name :: jsval
  uv_role :: string

datatype json_body =
    ErrorJson string
  | AuthJson string string user_view
  | WorkflowsJson "workflow list"
  | WorkflowJson workflow
  | IntegrationsJson "integration list"
  | IntegrationJson integration
  | TemplatesJson "template list"
  | DeployedJson string workflow
  | ExecutionsJson "execution list"
  | ExecutionJson execution
  | StatsJson nat nat nat nat string nat

datatype response = Response nat json_body

section \<open>Authentication middleware\<close>

text \<open>\<^verbatim>\<open>s.split(c)\<close> for a one-character separator.\<close>

fun split_on :: "char \<Rightarrow> string \<Rightarrow> string list" where
  "split_on c [] = [[]]"
| "split_on c (x # xs) =
     (if x = c then [] # split_on c xs
      else (case split_on c xs of
              [] \<Rightarrow> [[x]]
            | w # ws \<Rightarrow> (x # w) # ws))"

text \<open>
  \<^verbatim>\<open>authHeader && authHeader.split(' ')[1]\<close>, with \<open>None\<close> for \<^verbatim>\<open>undefined\<close>: a missing
  header and a header with no second part give \<^verbatim>\<open>undefined\<close>, an empty header gives
  itself.
\<close>

definition header_token :: "string option \<Rightarrow> string option" where
  "header_token authHeader =
     (case authHeader of
        None \<Rightarrow> None
      | Some h \<Rightarrow>
          if h = [] then Some []
          else (case split_on CHR '' '' h of
                  a # t # rest \<Rightarrow> Some t
                | _ \<Rightarrow> None))"

text \<open>
  \<^verbatim>\<open>authenticateToken\<close>: \<open>Inl\<close> is the response it sends itself, \<open>Inr\<close> the decoded
  payload it stores in \<^verbatim>\<open>req.user\<close> before calling \<^verbatim>\<open>next()\<close>.
\<close>

definition authenticateToken ::
  "libs \<Rightarrow> string option \<Rightarrow> nat \<Rightarrow> string option \<Rightarrow> response + jwt_payload" where
  "authenticateToken L env_secret now authHeader =
     (case header_token authHeader of
        None \<Rightarrow> Inl (Response 401 (ErrorJson ''Access token required''))
      | Some token \<Rightarrow>
          if token = [] then Inl (Response 401 (ErrorJson ''Access token required''))
          else (case jwt_verify L token (JWT_SECRET env_secret) now of
                  None \<Rightarrow> Inl (Response 403 (ErrorJson ''Invalid token''))
                | Some u \<Rightarrow> Inr u))"

text \<open>A route registered as \<^verbatim>\<open>app.METHOD(path, authenticateToken, handler)\<close>.\<close>

definition protected ::
  "libs \<Rightarrow> string option \<Rightarrow> nat \<Rightarrow> string option \<Rightarrow>
   (jwt_payload \<Rightarrow> state \<Rightarrow> response \<times> state) \<Rightarrow> state \<Rightarrow> response \<times> state" where
  "protected L env_secret now authHeader handler s =
     (case authenticateToken L env_secret now authHeader of
        Inl r \<Rightarrow> (r, s)
      | Inr u \<Rightarrow> handler u s)"

section \<open>Registration and login\<close>

text \<open>
  \<^verbatim>\<open>POST /api/auth/register\<close> up to its \<^verbatim>\<open>await bcrypt.hash(password, 12)\<close>: either it
  has answered (\<open>Inl\<close>), or it waits for the hash holding \<^verbatim>\<open>email\<close>, \<^verbatim>\<open>password\<close> and
  \<^verbatim>\<open>name\<close> (\<open>Inr\<close>).
\<close>

definition register_begin :: "body \<Rightarrow> state \<Rightarrow> response + (jsval \<times> jsval \<times> jsval)" where
  "register_begin b s =
     (let email = b ''email''; password = b ''password''; name = b ''name'' in
      if \<not> truthy email \<or> \<not> truthy password \<or> \<not> truthy name
      then Inl (Response 400 (ErrorJson ''Email, password, and name are required''))
      else (case find (\<lambda>u. strict_eq (user_email u) email) (users s) of
              Some existingUser \<Rightarrow> Inl (Response 400 (ErrorJson ''User already exists''))
            | None \<Rightarrow> Inr (email, password, name)))"

text \<open>
  The rest of the handler, run when the promise settles, on the store as it is then.
  \<^verbatim>\<open>bcrypt.hash\<close> rejects a password that is not a string; the \<^verbatim>\<open>catch\<close> answers 500.
\<close>

definition register_resume ::
  "libs \<Rightarrow> string option \<Rightarrow> env \<Rightarrow> jsval \<Rightarrow> jsval \<Rightarrow> jsval \<Rightarrow> state \<Rightarrow> response \<times> state" where
  "register_resume L env_secret e email password name s =
     (case password of
        JStr p \<Rightarrow>
          (let hashedPassword = bcrypt_hash L p 12 (salt e);
               u = \<lparr>user_id = uuid e, user_email = email, user_name = name,
                    user_password = hashedPassword,
                    user_role = (if length (users s) = 0 then ''admin'' else ''user''),
                    user_createdAt = date e\<rparr>;
               s' = s\<lparr>users := users s @ [u]\<rparr>;
               token = jwt_sign L
                         \<lparr>jp_userId = user_id u, jp_email = user_email u, jp_role = user_role u\<rparr>
                         (JWT_SECRET env_secret) ''24h'' (clock e)
           in (Response 201
                 (AuthJson ''User created successfully'' token
                    \<lparr>uv_id = user_id u, uv_email = user_email u, uv_name = user_name u,
                     uv_role = user_role u\<rparr>),
               s'))
      | _ \<Rightarrow> (Response 500 (ErrorJson ''Internal server error''), s))"

text \<open>The handler when nothing else runs between its \<^verbatim>\<open>await\<close> and its resumption.\<close>

definition register :: "libs \<Rightarrow> string option \<Rightarrow> env \<Rightarrow> body \<Rightarrow> state \<Rightarrow> response \<times> state" where
  "register L env_secret e b s =
     (case register_begin b s of
        Inl r \<Rightarrow> (r, s)
      | Inr (email, password, name) \<Rightarrow> register_resume L env_secret e email password name s)"

text \<open>\<^verbatim>\<open>POST /api/auth/login\<close> up to its \<^verbatim>\<open>await bcrypt.compare(password, user.password)\<close>.\<close>

definition login_begin :: "body \<Rightarrow> state \<Rightarrow> response + (user \<times> jsval)" where
  "login_begin b s =
     (let email = b ''email''; password = b ''password'' in
      if \<not> truthy email \<or> \<not> truthy password
      then Inl (Response 400 (ErrorJson ''Email and password are required''))
      else (case find (\<lambda>u. strict_eq (user_email u) email) (users s) of
              None \<Rightarrow> Inl (Response 401 (ErrorJson ''Invalid credentials''))
            | Some u \<Rightarrow> Inr (u, password)))"

text \<open>
  The rest of the handler reads only the user record it holds and writes nothing.
  \<^verbatim>\<open>bcrypt.compare\<close> rejects a password that is not a string.
\<close>

definition login_resume :: "libs \<Rightarrow> string option \<Rightarrow> env \<Rightarrow> user \<Rightarrow> jsval \<Rightarrow> response" where
  "login_resume L env_secret e u password =
     (case password of
        JStr p \<Rightarrow>
          if \<not> bcrypt_compare L p (user_password u)
          then Response 401 (ErrorJson ''Invalid credentials'')
          else (let token = jwt_sign L
                              \<lparr>jp_userId = user_id u, jp_email = user_email u,
                               jp_role = user_role u\<rparr>
                              (JWT_SECRET env_secret) ''24h'' (clock e)
                in Response 200
                     (AuthJson ''Login successful'' token
                        \<lparr>uv_id = user_id u, uv_email = user_email u, uv_name = user_name u,
                         uv_role = user_role u\<rparr>))
      | _ \<Rightarrow> Response 500 (ErrorJson ''Internal server error''))"

section \<open>Protected handlers\<close>

text \<open>Each takes \<^verbatim>\<open>req.user\<close> as set by the middleware; all of them run to their end at once.\<close>

definition get_workflows :: "jwt_payload \<Rightarrow> state \<Rightarrow> response \<times> state" where
  "get_workflows u s =
     (let userWorkflows = filter (\<lambda>w. wf_userId w = jp_userId u) (workflows s)
      in (Response 200 (WorkflowsJson userWorkflows), s))"

definition post_workflows :: "env \<Rightarrow> body \<Rightarrow> jwt_payload \<Rightarrow> state \<Rightarrow> response \<times> state" where
  "post_workflows e b u s =
     (let name = b ''name''; description = b ''description''; trigger = b ''trigger'';
          actions = b ''actions'';
          w = \<lparr>wf_id = uuid e, wf_userId = jp_userId u, wf_name = name,
               wf_description = description, wf_trigger = trigger,
               wf_actions = (if truthy actions then actions else JArr []),
               wf_status = ''active'', wf_templateId = None,
               wf_createdAt = date e, wf_updatedAt = date2 e\<rparr>
      in (Response 201 (WorkflowJson w), s\<lparr>workflows := workflows s @ [w]\<rparr>))"

definition get_integrations :: "jwt_payload \<Rightarrow> state \<Rightarrow> response \<times> state" where
  "get_integrations u s = (Response 200 (IntegrationsJson (integrations s)), s)"

definition post_integrations :: "env \<Rightarrow> body \<Rightarrow> jwt_payload \<Rightarrow> state \<Rightarrow> response \<times> state" where
  "post_integrations e b u s =
     (let name = b ''name''; type = b ''type''; config = b ''config'';
          i = \<lparr>in_id = uuid e, in_userId = Some (jp_userId u), in_name = name, in_type = type,
               in_config = config, in_status = ''active'', in_description = None,
               in_createdAt = Some (date e)\<rparr>
      in (Response 201 (IntegrationJson i), s\<lparr>integrations := integrations s @ [i]\<rparr>))"

definition get_templates :: "jwt_payload \<Rightarrow> state \<Rightarrow> response \<times> state" where
  "get_templates u s = (Response 200 (TemplatesJson templates), s)"

text \<open>\<^verbatim>\<open>template.triggers[0]\<close> is \<^verbatim>\<open>undefined\<close> on an empty array.\<close>

definition deploy_template :: "env \<Rightarrow> string \<Rightarrow> jwt_payload \<Rightarrow> state \<Rightarrow> response \<times> state" where
  "deploy_template e templateId u s =
     (case find (\<lambda>t. tp_id t = templateId) templates of
        None \<Rightarrow> (Response 404 (ErrorJson ''Template not found''), s)
      | Some t \<Rightarrow>
          (let w = \<lparr>wf_id = uuid e, wf_userId = jp_userId u, wf_name = JStr (tp_name t),
                    wf_description = JStr (tp_description t),
                    wf_trigger = (case tp_triggers t of [] \<Rightarrow> JUndefined | x # xs \<Rightarrow> JStr x),
                    wf_actions = JArr (map JStr (tp_actions t)),
                    wf_status = ''active'', wf_templateId = Some (tp_id t),
                    wf_createdAt = date e, wf_updatedAt = date2 e\<rparr>
           in (Response 201 (DeployedJson ''Template deployed successfully'' w),
               s\<lparr>workflows := workflows s @ [w]\<rparr>)))"

definition get_executions :: "jwt_payload \<Rightarrow> state \<Rightarrow> response \<times> state" where
  "get_executions u s =
     (let userExecutions = filter (\<lambda>x. ex_userId x = jp_userId u) (executions s)
      in (Response 200 (ExecutionsJson userExecutions), s))"

text \<open>
  \<^verbatim>\<open>POST /api/executions/:workflowId\<close>: the record is built, which puts the name of the
  workflow into a template literal; when that throws, the \<^verbatim>\<open>catch\<close> answers 500 and
  nothing has been pushed. Otherwise the record is pushed, then \<^verbatim>\<open>setTimeout(..., 2000)\<close>
  arms the timer for it, then the record is serialised into the response.
\<close>

definition post_execution :: "env \<Rightarrow> string \<Rightarrow> jwt_payload \<Rightarrow> state \<Rightarrow> response \<times> state" where
  "post_execution e workflowId u s =
     (case find (\<lambda>w. wf_id w = workflowId \<and> wf_userId w = jp_userId u) (workflows s) of
        None \<Rightarrow> (Response 404 (ErrorJson ''Workflow not found''), s)
      | Some w \<Rightarrow>
          if to_string_throws (wf_name w)
          then (Response 500 (ErrorJson ''Failed to start execution''), s)
          else
            (let x = \<lparr>ex_id = uuid e, ex_userId = jp_userId u, ex_workflowId = workflowId,
                      ex_status = ''running'', ex_startedAt = date e, ex_completedAt = None,
                      ex_logs = [ExecutionStarted (wf_name w)]\<rparr>;
                 s' = s\<lparr>executions := executions s @ [x],
                        pending := pending s @
                          [ExecutionTimer (length (executions s)) (clock e + 2000)]\<rparr>
             in (Response 201 (ExecutionJson x), s')))"

text \<open>
  The callback given to \<^verbatim>\<open>setTimeout\<close>, for the record at position \<open>i\<close>. The callback
  holds the record itself; the position of every armed timer is shown below to lie inside
  the store in every state the server reaches. \<^verbatim>\<open>Math.floor\<close> and the addition of 1 are
  exact on the doubles that occur.
\<close>

definition execution_timeout :: "libs \<Rightarrow> env \<Rightarrow> nat \<Rightarrow> state \<Rightarrow> state" where
  "execution_timeout L e i s =
     (let x = executions s ! i;
          x' = x\<lparr>ex_status := ''completed'', ex_completedAt := Some (date e),
                 ex_logs := ex_logs x @
                   [ExecutionCompleted, Processed (\<lfloor>double_times L (random e) 50\<rfloor> + 1)]\<rparr>
      in s\<lparr>executions := (executions s)[i := x']\<rparr>)"

text \<open>
  \<^verbatim>\<open>GET /api/system/stats\<close>: the four counts, \<^verbatim>\<open>systemStatus\<close> and \<^verbatim>\<open>timestamp\<close>; the
  readings \<^verbatim>\<open>process.uptime()\<close> and \<^verbatim>\<open>process.memoryUsage()\<close> are left out of the body.
\<close>

definition get_stats :: "env \<Rightarrow> jwt_payload \<Rightarrow> state \<Rightarrow> response \<times> state" where
  "get_stats e u s =
     (Response 200
        (StatsJson (length (filter (\<lambda>w. wf_userId w = jp_userId u) (workflows s)))
           (length (filter (\<lambda>x. ex_userId x = jp_userId u) (executions s)))
           (length (integrations s)) (length templates) ''operational'' (date e)),
      s)"

section \<open>Startup\<close>

text \<open>The callback of \<^verbatim>\<open>app.listen\<close>: it starts hashing the default password.\<close>

definition listen :: "state \<Rightarrow> state" where
  "listen s = (if length (users s) = 0 then s\<lparr>pending := pending s @ [SeedAdmin]\<rparr> else s)"

text \<open>The \<^verbatim>\<open>then\<close> callback of that hash: it pushes the default admin without looking again.\<close>

definition seed_admin :: "libs \<Rightarrow> env \<Rightarrow> state \<Rightarrow> state" where
  "seed_admin L e s =
     s\<lparr>users := users s @
         [\<lparr>user_id = uuid e, user_email = JStr ''admin@autoflow.com'',
           user_name = JStr ''AutoFlow Admin'',
           user_password = bcrypt_hash L ''admin123'' 12 (salt e),
           user_role = ''admin'', user_createdAt = date e\<rparr>]\<rparr>"

section \<open>The event loop\<close>

datatype route =
    PostRegister
  | PostLogin
  | GetWorkflows
  | PostWorkflows
  | GetIntegrations
  | PostIntegrations
  | GetTemplates
  | PostTemplateDeploy string
  | GetExecutions
  | PostExecution string
  | GetSystemStats

record request =
  req_route :: route
  req_authorization :: "string option"
  req_body :: body

text \<open>
  One turn of the event loop: the startup callback, a request that has passed the global
  middleware (handled until it answers or awaits), or the resumption of the outstanding
  task at a position of \<open>pending\<close>. A timer does not fire before its time. The routes
  \<^verbatim>\<open>/\<close>, \<^verbatim>\<open>/health\<close> and \<^verbatim>\<open>/api/docs\<close> and the 404 handler neither read nor write the
  collections beyond two lengths and are not part of the model.
\<close>

datatype event =
    Listen
  | Incoming request env
  | Resume nat env

definition answered :: "response \<times> state \<Rightarrow> response option \<times> state" where
  "answered rs = (Some (fst rs), snd rs)"

definition incoming :: "libs \<Rightarrow> string option \<Rightarrow> request \<Rightarrow> env \<Rightarrow> state \<Rightarrow> response option \<times> state" where
  "incoming L env_secret r e s =
     (let auth = protected L env_secret (clock e) (req_authorization r) in
      case req_route r of
        PostRegister \<Rightarrow>
          (case register_begin (req_body r) s of
             Inl resp \<Rightarrow> (Some resp, s)
           | Inr (email, password, name) \<Rightarrow>
               (None, s\<lparr>pending := pending s @ [RegisterHash email password name]\<rparr>))
      | PostLogin \<Rightarrow>
          (case login_begin (req_body r) s of
             Inl resp \<Rightarrow> (Some resp, s)
           | Inr (u, password) \<Rightarrow>
               (None, s\<lparr>pending := pending s @ [LoginCompare u password]\<rparr>))
      | GetWorkflows \<Rightarrow> answered (auth get_workflows s)
      | PostWorkflows \<Rightarrow> answered (auth (post_workflows e (req_body r)) s)
      | GetIntegrations \<Rightarrow> answered (auth get_integrations s)
      | PostIntegrations \<Rightarrow> answered (auth (post_integrations e (req_body r)) s)
      | GetTemplates \<Rightarrow> answered (auth get_templates s)
      | PostTemplateDeploy templateId \<Rightarrow> answered (auth (deploy_template e templateId) s)
      | GetExecutions \<Rightarrow> answered (auth get_executions s)
      | PostExecution workflowId \<Rightarrow> answered (auth (post_execution e workflowId) s)
      | GetSystemStats \<Rightarrow> answered (auth (get_stats e) s))"

definition resume :: "libs \<Rightarrow> string option \<Rightarrow> nat \<Rightarrow> env \<Rightarrow> state \<Rightarrow> response option \<times> state" where
  "resume L env_secret i e s =
     (if i < length (pending s) then
        (let s0 = s\<lparr>pending := take i (pending s) @ drop (Suc i) (pending s)\<rparr> in
         case pending s ! i of
           SeedAdmin \<Rightarrow> (None, seed_admin L e s0)
         | RegisterHash email password name \<Rightarrow>
             answered (register_resume L env_secret e email password name s0)
         | LoginCompare u password \<Rightarrow> (Some (login_resume L env_secret e u password), s0)
         | ExecutionTimer idx due \<Rightarrow>
             if due \<le> clock e then (None, execution_timeout L e idx s0) else (None, s))
      else (None, s))"

fun step :: "libs \<Rightarrow> string option \<Rightarrow> event \<Rightarrow> state \<Rightarrow> response option \<times> state" where
  "step L env_secret Listen s = (None, listen s)"
| "step L env_secret (Incoming r e) s = incoming L env_secret r e s"
| "step L env_secret (Resume i e) s = resume L env_secret i e s"

fun run :: "libs \<Rightarrow> string option \<Rightarrow> event list \<Rightarrow> state \<Rightarrow> response option list \<times> state" where
  "run L env_secret [] s = ([], s)"
| "run L env_secret (ev # evs) s =
     (case step L env_secret ev s of
        (r, s') \<Rightarrow> (case run L env_secret evs s' of (rs, s'') \<Rightarrow> (r # rs, s'')))"

section \<open>A small instance of the libraries, for concrete runs\<close>

text \<open>
  A stand-in for the two libraries that can be evaluated: the hash is the salt, a
  \<^verbatim>\<open>$\<close> and the password; a token is the user id, the role, the email and the secret,
  separated by \<^verbatim>\<open>|\<close>; products are exact. It is used only to run the model on concrete
  requests.
\<close>

definition toy_hash :: "string \<Rightarrow> nat \<Rightarrow> string \<Rightarrow> string" where
  "toy_hash p rounds slt = slt @ ''$'' @ p"

definition toy_compare :: "string \<Rightarrow> string \<Rightarrow> bool" where
  "toy_compare p h = (dropWhile (\<lambda>c. c \<noteq> CHR ''$'') h = CHR ''$'' # p)"

definition toy_sign :: "jwt_payload \<Rightarrow> string \<Rightarrow> string \<Rightarrow> nat \<Rightarrow> string" where
  "toy_sign p secret expiresIn now =
     jp_userId p @ ''|'' @ jp_role p @ ''|'' @
     (case jp_email p of JStr m \<Rightarrow> m | _ \<Rightarrow> []) @ ''|'' @ secret"

definition toy_verify :: "string \<Rightarrow> string \<Rightarrow> nat \<Rightarrow> jwt_payload option" where
  "toy_verify token secret now =
     (case split_on CHR ''|'' token of
        [uid, role, mail, sec] \<Rightarrow>
          if sec = secret then Some \<lparr>jp_userId = uid, jp_email = JStr mail, jp_role = role\<rparr>
          else None
      | _ \<Rightarrow> None)"

definition toy_libs :: libs where
  "toy_libs = \<lparr>bcrypt_hash = toy_hash, bcrypt_compare = toy_compare,
                jwt_sign = toy_sign, jwt_verify = toy_verify,
                double_times = (\<lambda>a b. a * b)\<rparr>"

text \<open>
  A second stand-in for \<^verbatim>\<open>jsonwebtoken\<close>, which keeps its contract for every payload and
  every secret: the token is a letter followed by as many \<^verbatim>\<open>x\<close> as the number of the
  payload and the secret, and verifying reads that number back.
\<close>

definition coded_sign :: "jwt_payload \<Rightarrow> string \<Rightarrow> string \<Rightarrow> nat \<Rightarrow> string" where
  "coded_sign p secret expiresIn now =
     CHR ''t'' # replicate (to_nat (jp_userId p, jp_email p, jp_role p, secret)) CHR ''x''"

definition coded_verify :: "string \<Rightarrow> string \<Rightarrow> nat \<Rightarrow> jwt_payload option" where
  "coded_verify token secret now =
     (case token of
        [] \<Rightarrow> None
      | c # rest \<Rightarrow>
          (case from_nat (length rest) of
             (uid, mail, role, sec) \<Rightarrow>
               if sec = secret \<and> token = CHR ''t'' # replicate (length rest) CHR ''x''
               then Some \<lparr>jp_userId = uid, jp_email = mail, jp_role = role\<rparr>
               else None))"

definition coded_libs :: libs where
  "coded_libs = \<lparr>bcrypt_hash = toy_hash, bcrypt_compare = toy_compare,
                  jwt_sign = coded_sign, jwt_verify = coded_verify,
                  double_times = (\<lambda>a b. a * b)\<rparr>"

definition env_at :: "string \<Rightarrow> nat \<Rightarrow> env" where
  "env_at ident t = \<lparr>uuid = ident, date = t, date2 = t, clock = t, salt = ''na'', random = 1 / 2\<rparr>"

definition credentials :: "string \<Rightarrow> string \<Rightarrow> string \<Rightarrow> body" where
  "credentials email password name =
     (\<lambda>k. if k = ''email'' then JStr email
          else if k = ''password'' then JStr password
          else if k = ''name'' then JStr name
          else JUndefined)"

definition post_register :: "string \<Rightarrow> string \<Rightarrow> string \<Rightarrow> request" where
  "post_register email password name =
     \<lparr>req_route = PostRegister, req_authorization = None,
      req_body = credentials email password name\<rparr>"

definition post_login :: "string \<Rightarrow> string \<Rightarrow> request" where
  "post_login email password =
     \<lparr>req_route = PostLogin, req_authorization = None,
      req_body = credentials email password []\<rparr>"

definition with_bearer :: "route \<Rightarrow> string \<Rightarrow> body \<Rightarrow> request" where
  "with_bearer rt token b =
     \<lparr>req_route = rt, req_authorization = Some (''Bearer '' @ token), req_body = b\<rparr>"

definition alice :: jwt_payload where
  "alice = \<lparr>jp_userId = ''u1'', jp_email = JStr ''al@x.org'', jp_role = ''user''\<rparr>"

definition alice_token :: string where
  "alice_token = toy_sign alice (JWT_SECRET None) ''24h'' 0"

definition bob :: jwt_payload where
  "bob = \<lparr>jp_userId = ''u2'', jp_email = JStr ''bo@x.org'', jp_role = ''user''\<rparr>"

definition bob_token :: string where
  "bob_token = toy_sign bob (JWT_SECRET None) ''24h'' 0"

definition hook_body :: body where
  "hook_body =
     (\<lambda>k. if k = ''name'' then JStr ''Hook''
          else if k = ''type'' then JStr ''webhook''
          else if k = ''config'' then JObj [(''url'', JStr ''https://h.example''), (''key'', JStr ''s3cr3t'')]
          else JUndefined)"

section \<open>Uniqueness of emails\<close>

text \<open>No two records of the user store have the same email, by the server's own test \<^verbatim>\<open>===\<close>.\<close>

fun unique_emails :: "user list \<Rightarrow> bool" where
  "unique_emails [] = True"
| "unique_emails (u # us) =
     (\<not> list_ex (\<lambda>v. strict_eq (user_email v) (user_email u)) us \<and> unique_emails us)"

section \<open>Concrete runs\<close>

text \<open>The startup of the server, and one registration handled from start to end.\<close>

definition startup_run :: "event list" where
  "startup_run = [Listen, Resume 0 (env_at ''u0'' 10)]"

definition registration_run :: "event list" where
  "registration_run =
     [Incoming (post_register ''al@x.org'' ''pw'' ''Al'') (env_at ''x'' 20),
      Resume 0 (env_at ''u1'' 30)]"

text \<open>A run in which the user creates a workflow and starts an execution of it.\<close>

definition started_run :: "event list" where
  "started_run =
     [Incoming (with_bearer PostWorkflows alice_token empty_body) (env_at ''w1'' 40),
      Incoming (with_bearer (PostExecution ''w1'') alice_token empty_body) (env_at ''x1'' 50)]"

section \<open>The life of an execution record\<close>

text \<open>The positions in \<^verbatim>\<open>executions\<close> for which a timer is armed.\<close>

definition timer_indices :: "task list \<Rightarrow> nat list" where
  "timer_indices ts = concat (map (\<lambda>t. case t of ExecutionTimer i due \<Rightarrow> [i] | _ \<Rightarrow> []) ts)"

text \<open>
  Every armed timer is for a different record of the store, and a record is
  \<^verbatim>\<open>running\<close> while its timer is armed and \<^verbatim>\<open>completed\<close> once it is not.
\<close>

definition lifecycle_inv :: "state \<Rightarrow> bool" where
  "lifecycle_inv s \<longleftrightarrow>
     distinct (timer_indices (pending s))
     \<and> (\<forall>i \<in> set (timer_indices (pending s)). i < length (executions s))
     \<and> (\<forall>i < length (executions s).
           ex_status (executions s ! i)
             = (if i \<in> set (timer_indices (pending s)) then ''running'' else ''completed''))"

section \<open>Basic facts\<close>

lemma protected_authenticated:
  "authenticateToken L sec now h = Inr u \<Longrightarrow> protected L sec now h handler s = handler u s"
  by (simp add: protected_def)

lemma with_bearer_sel:
  "req_route (with_bearer rt token b) = rt"
  "req_body (with_bearer rt token b) = b"
  by (simp_all add: with_bearer_def)

lemma alice_authenticated:
  "authenticateToken toy_libs None now (Some (''Bearer '' @ alice_token)) = Inr alice"
  by (simp add: authenticateToken_def header_token_def toy_libs_def toy_verify_def
      alice_token_def toy_sign_def alice_def JWT_SECRET_def)

lemma alice_bearer:
  "authenticateToken toy_libs None now (req_authorization (with_bearer rt alice_token b)) = Inr alice"
  using alice_authenticated by (simp add: with_bearer_def)

lemma junk_rejected:
  "header_token (Some ''Bearer junk'') = Some ''junk''"
  "jwt_verify toy_libs ''junk'' (JWT_SECRET None) now = None"
  by (simp_all add: header_token_def toy_libs_def toy_verify_def)

section \<open>Listing workflows\<close>

text \<open>
  C2. For every state of the workflow store and every authenticated user \<open>B\<close>, the answer
  of \<^verbatim>\<open>GET /api/workflows\<close> is 200 with exactly the stored workflows whose \<^verbatim>\<open>userId\<close> is
  \<open>B\<close>'s, in store order, and the store is left as it was. A stored workflow with another
  \<^verbatim>\<open>userId\<close> is not in the answer, and a workflow that a user \<open>A\<close> creates, through
  \<^verbatim>\<open>POST /api/workflows\<close> or by deploying a template, carries \<open>A\<close>'s \<^verbatim>\<open>userId\<close>.
\<close>

theorem workflows_listing_is_own:
  assumes "req_route r = GetWorkflows"
    and "authenticateToken L sec (clock e) (req_authorization r) = Inr B"
  shows "step L sec (Incoming r e) s
           = (Some (Response 200
                (WorkflowsJson (filter (\<lambda>w. wf_userId w = jp_userId B) (workflows s)))), s)
       \<and> set (filter (\<lambda>w. wf_userId w = jp_userId B) (workflows s))
           = {w \<in> set (workflows s). wf_userId w = jp_userId B}
       \<and> (\<forall>w \<in> set (workflows s). wf_userId w \<noteq> jp_userId B \<longrightarrow>
             w \<notin> set (filter (\<lambda>w. wf_userId w = jp_userId B) (workflows s)))
       \<and> (\<forall>A e' b s0 w s1. post_workflows e' b A s0 = (Response 201 (WorkflowJson w), s1) \<longrightarrow>
             wf_userId w = jp_userId A)
       \<and> (\<forall>A e' tid s0 m w s1. deploy_template e' tid A s0 = (Response 201 (DeployedJson m w), s1) \<longrightarrow>
             wf_userId w = jp_userId A)"
proof -
  have "step L sec (Incoming r e) s
      = (Some (Response 200
           (WorkflowsJson (filter (\<lambda>w. wf_userId w = jp_userId B) (workflows s)))), s)"
    using assms by (simp add: incoming_def protected_authenticated answered_def get_workflows_def)
  moreover have "\<forall>A e' b s0 w s1.
      post_workflows e' b A s0 = (Response 201 (WorkflowJson w), s1) \<longrightarrow> wf_userId w = jp_userId A"
    by (auto simp: post_workflows_def Let_def)
  moreover have "\<forall>A e' tid s0 m w s1.
      deploy_template e' tid A s0 = (Response 201 (DeployedJson m w), s1) \<longrightarrow>
      wf_userId w = jp_userId A"
    by (auto simp: deploy_template_def Let_def split: option.splits)
  ultimately show ?thesis by auto
qed

theorem workflows_listing_is_own_witness:
  "step toy_libs None (Incoming (with_bearer GetWorkflows alice_token empty_body) (env_at ''g'' 9))
     (init_state\<lparr>workflows :=
        [\<lparr>wf_id = ''w1'', wf_userId = ''u1'', wf_name = JStr ''mine'', wf_description = JUndefined,
          wf_trigger = JUndefined, wf_actions = JArr [], wf_status = ''active'',
          wf_templateId = None, wf_createdAt = 8, wf_updatedAt = 8\<rparr>,
         \<lparr>wf_id = ''w2'', wf_userId = ''u2'', wf_name = JStr ''theirs'', wf_description = JUndefined,
          wf_trigger = JUndefined, wf_actions = JArr [], wf_status = ''active'',
          wf_templateId = None, wf_createdAt = 8, wf_updatedAt = 8\<rparr>]\<rparr>)
   = (Some (Response 200 (WorkflowsJson
        [\<lparr>wf_id = ''w1'', wf_userId = ''u1'', wf_name = JStr ''mine'', wf_description = JUndefined,
          wf_trigger = JUndefined, wf_actions = JArr [], wf_status = ''active'',
          wf_templateId = None, wf_createdAt = 8, wf_updatedAt = 8\<rparr>])),
      init_state\<lparr>workflows :=
        [\<lparr>wf_id = ''w1'', wf_userId = ''u1'', wf_name = JStr ''mine'', wf_description = JUndefined,
          wf_trigger = JUndefined, wf_actions = JArr [], wf_status = ''active'',
          wf_templateId = None, wf_createdAt = 8, wf_updatedAt = 8\<rparr>,
         \<lparr>wf_id = ''w2'', wf_userId = ''u2'', wf_name = JStr ''theirs'', wf_description = JUndefined,
          wf_trigger = JUndefined, wf_actions = JArr [], wf_status = ''active'',
          wf_templateId = None, wf_createdAt = 8, wf_updatedAt = 8\<rparr>]\<rparr>)"
proof -
  let ?r = "with_bearer GetWorkflows alice_token empty_body"
  have route: "req_route ?r = GetWorkflows"
    by (simp add: with_bearer_sel)
  have auth: "authenticateToken toy_libs None (clock (env_at ''g'' 9)) (req_authorization ?r) = Inr alice"
    by (rule alice_bearer)
  show ?thesis
    using workflows_listing_is_own [OF route auth] by (simp add: alice_def)
qed

section \<open>Requests the middleware turns away\<close>

text \<open>
  C4. For every request to a protected route (every modelled route but register and
  login): when the middleware extracts no token from the Authorization header (the
  header is missing, is empty, or has no or an empty second space-separated part) the
  answer is 401, and when it extracts a token that \<^verbatim>\<open>jwt.verify\<close> rejects the answer is
  403. In both cases the store is unchanged and the outcome is the same whatever the
  handler behind the middleware is: the handler is not run.
\<close>

theorem unauthenticated_rejected:
  assumes "req_route r \<noteq> PostRegister" and "req_route r \<noteq> PostLogin"
  shows "(header_token (req_authorization r) = None \<or> header_token (req_authorization r) = Some [] \<longrightarrow>
            step L sec (Incoming r e) s = (Some (Response 401 (ErrorJson ''Access token required'')), s)
          \<and> (\<forall>handler. protected L sec (clock e) (req_authorization r) handler s
                = (Response 401 (ErrorJson ''Access token required''), s)))
       \<and> (\<forall>t. header_token (req_authorization r) = Some t \<and> t \<noteq> []
               \<and> jwt_verify L t (JWT_SECRET sec) (clock e) = None \<longrightarrow>
            step L sec (Incoming r e) s = (Some (Response 403 (ErrorJson ''Invalid token'')), s)
          \<and> (\<forall>handler. protected L sec (clock e) (req_authorization r) handler s
                = (Response 403 (ErrorJson ''Invalid token''), s)))"
proof -
  have through: "step L sec (Incoming r e) s = (Some x, s)"
    if "\<And>handler. protected L sec (clock e) (req_authorization r) handler s = (x, s)" for x
    using assms that by (cases "req_route r") (simp_all add: incoming_def answered_def)
  have no_token: "protected L sec (clock e) (req_authorization r) handler s
      = (Response 401 (ErrorJson ''Access token required''), s)"
    if "header_token (req_authorization r) = None \<or> header_token (req_authorization r) = Some []"
    for handler
    using that by (auto simp: protected_def authenticateToken_def)
  have bad_token: "protected L sec (clock e) (req_authorization r) handler s
      = (Response 403 (ErrorJson ''Invalid token''), s)"
    if "header_token (req_authorization r) = Some t" "t \<noteq> []"
       "jwt_verify L t (JWT_SECRET sec) (clock e) = None"
    for handler t
    using that by (simp add: protected_def authenticateToken_def)
  show ?thesis
    using through no_token bad_token by blast
qed

theorem unauthenticated_rejected_witness:
  "step toy_libs None
     (Incoming \<lparr>req_route = GetWorkflows, req_authorization = None, req_body = empty_body\<rparr>
        (env_at ''e1'' 5)) init_state
     = (Some (Response 401 (ErrorJson ''Access token required'')), init_state)
   \<and> step toy_libs None (Incoming (with_bearer PostWorkflows ''junk'' empty_body) (env_at ''e2'' 6))
       init_state
     = (Some (Response 403 (ErrorJson ''Invalid token'')), init_state)"
  using unauthenticated_rejected [of "\<lparr>req_route = GetWorkflows, req_authorization = None, req_body = empty_body\<rparr>"
      toy_libs None "env_at ''e1'' 5" init_state]
    unauthenticated_rejected [of "with_bearer PostWorkflows ''junk'' empty_body" toy_libs None "env_at ''e2'' 6"
      init_state]
    junk_rejected
  by (simp add: with_bearer_def header_token_def)

section \<open>Executing a workflow that is not there\<close>

lemma execution_of_unprintable_name:
  assumes "find (\<lambda>w. wf_id w = workflowId \<and> wf_userId w = jp_userId u) (workflows s) = Some w"
    and "to_string_throws (wf_name w)"
  shows "post_execution e workflowId u s
           = (Response 500 (ErrorJson ''Failed to start execution''), s)"
  using assms by (simp add: post_execution_def)

text \<open>
  C8. \<^verbatim>\<open>POST /api/executions/:workflowId\<close> by an authenticated user answers 404 whenever
  the store holds no workflow with that id and the user's \<^verbatim>\<open>userId\<close>, and then the whole
  state is unchanged: no execution record is added and no timer is armed.
\<close>

theorem execution_of_unknown_workflow:
  assumes "req_route r = PostExecution workflowId"
    and "authenticateToken L sec (clock e) (req_authorization r) = Inr u"
    and "\<not> (\<exists>w \<in> set (workflows s). wf_id w = workflowId \<and> wf_userId w = jp_userId u)"
  shows "step L sec (Incoming r e) s = (Some (Response 404 (ErrorJson ''Workflow not found'')), s)"
proof -
  have "find (\<lambda>w. wf_id w = workflowId \<and> wf_userId w = jp_userId u) (workflows s) = None"
    using assms(3) by (simp add: find_None_iff)
  then show ?thesis
    using assms(1,2)
    by (simp add: incoming_def protected_authenticated answered_def post_execution_def)
qed

theorem execution_of_unknown_workflow_witness:
  "step toy_libs None
     (Incoming (with_bearer (PostExecution ''w9'') alice_token empty_body) (env_at ''x1'' 7))
     init_state = (Some (Response 404 (ErrorJson ''Workflow not found'')), init_state)"
  using execution_of_unknown_workflow [of "with_bearer (PostExecution ''w9'') alice_token empty_body"
      "''w9''" toy_libs None "env_at ''x1'' 7" alice init_state]
  by (simp add: with_bearer_sel alice_bearer init_state_def)

section \<open>Creating a workflow\<close>

text \<open>
  C9. \<^verbatim>\<open>POST /api/workflows\<close> validates nothing: for every authenticated request, whatever
  its body (the empty body too), the answer is 201 with the new workflow, which is
  appended to the store, has status \<^verbatim>\<open>active\<close> and the requester's \<^verbatim>\<open>userId\<close>, takes
  \<^verbatim>\<open>name\<close>, \<^verbatim>\<open>description\<close> and \<^verbatim>\<open>trigger\<close> from the body as they are (\<^verbatim>\<open>undefined\<close> when
  absent), and takes \<^verbatim>\<open>actions\<close> from the body when it is truthy and the empty array
  otherwise. No request to the route, authenticated or not, is answered 400.
\<close>

theorem workflow_creation_unvalidated:
  assumes "req_route r = PostWorkflows"
  shows "(\<forall>u. authenticateToken L sec (clock e) (req_authorization r) = Inr u \<longrightarrow>
            (\<exists>w. step L sec (Incoming r e) s
                    = (Some (Response 201 (WorkflowJson w)), s\<lparr>workflows := workflows s @ [w]\<rparr>)
                \<and> wf_status w = ''active'' \<and> wf_userId w = jp_userId u
                \<and> wf_name w = req_body r ''name''
                \<and> wf_description w = req_body r ''description''
                \<and> wf_trigger w = req_body r ''trigger''
                \<and> wf_actions w = (if truthy (req_body r ''actions'') then req_body r ''actions''
                                  else JArr [])))
       \<and> (\<forall>c j s'. step L sec (Incoming r e) s = (Some (Response c j), s') \<longrightarrow> c \<noteq> 400)"
proof (intro conjI allI impI)
  fix u assume "authenticateToken L sec (clock e) (req_authorization r) = Inr u"
  then show "\<exists>w. step L sec (Incoming r e) s
                    = (Some (Response 201 (WorkflowJson w)), s\<lparr>workflows := workflows s @ [w]\<rparr>)
                \<and> wf_status w = ''active'' \<and> wf_userId w = jp_userId u
                \<and> wf_name w = req_body r ''name''
                \<and> wf_description w = req_body r ''description''
                \<and> wf_trigger w = req_body r ''trigger''
                \<and> wf_actions w = (if truthy (req_body r ''actions'') then req_body r ''actions''
                                  else JArr [])"
    using assms
    by (simp add: incoming_def protected_authenticated answered_def post_workflows_def Let_def)
next
  fix c j s' assume "step L sec (Incoming r e) s = (Some (Response c j), s')"
  then show "c \<noteq> 400"
    using assms
    by (auto simp: incoming_def protected_def answered_def post_workflows_def Let_def
        authenticateToken_def split: sum.splits option.splits if_splits)
qed

theorem workflow_creation_unvalidated_witness:
  "\<exists>w. step toy_libs None
          (Incoming (with_bearer PostWorkflows alice_token empty_body) (env_at ''w1'' 8)) init_state
        = (Some (Response 201 (WorkflowJson w)),
           init_state\<lparr>workflows := workflows init_state @ [w]\<rparr>)
      \<and> wf_status w = ''active'' \<and> wf_userId w = ''u1'' \<and> wf_name w = JUndefined
      \<and> wf_description w = JUndefined \<and> wf_trigger w = JUndefined \<and> wf_actions w = JArr []"
  using workflow_creation_unvalidated [of "with_bearer PostWorkflows alice_token empty_body"
      toy_libs None "env_at ''w1'' 8" init_state]
  by (auto simp: with_bearer_sel alice_bearer empty_body_def alice_def)

section \<open>Integrations are shared\<close>

lemma bob_bearer:
  "authenticateToken toy_libs None now (req_authorization (with_bearer rt bob_token b)) = Inr bob"
  by (simp add: with_bearer_def authenticateToken_def header_token_def toy_libs_def
      toy_verify_def bob_token_def toy_sign_def bob_def JWT_SECRET_def)

lemma incoming_integrations:
  assumes "incoming L sec r e s = (ro, s')"
  shows "\<exists>new. integrations s' = integrations s @ new"
proof (cases "req_route r")
  case PostRegister
  then show ?thesis using assms
    by (auto simp: incoming_def split: sum.splits prod.splits)
next
  case PostLogin
  then show ?thesis using assms
    by (auto simp: incoming_def split: sum.splits prod.splits)
qed (use assms in \<open>auto simp: incoming_def protected_def answered_def get_workflows_def
        post_workflows_def get_integrations_def post_integrations_def get_templates_def
        deploy_template_def get_executions_def post_execution_def get_stats_def Let_def
        split: sum.splits option.splits if_splits\<close>)

lemma resume_integrations:
  "integrations (snd (resume L sec i e s)) = integrations s"
proof (cases "i < length (pending s)")
  case False
  then show ?thesis by (simp add: resume_def)
next
  case True
  show ?thesis
  proof (cases "pending s ! i")
    case SeedAdmin
    then show ?thesis using True by (simp add: resume_def seed_admin_def)
  next
    case (RegisterHash em pw nm)
    then show ?thesis using True
      by (cases pw) (simp_all add: resume_def register_resume_def answered_def Let_def)
  next
    case (LoginCompare u pw)
    then show ?thesis using True by (simp add: resume_def)
  next
    case (ExecutionTimer idx due)
    then show ?thesis using True by (simp add: resume_def execution_timeout_def Let_def)
  qed
qed

lemma step_integrations:
  "\<exists>new. integrations (snd (step L sec ev s)) = integrations s @ new"
proof (cases ev)
  case Listen
  then show ?thesis by (simp add: listen_def)
next
  case (Incoming r e)
  then show ?thesis using incoming_integrations [of L sec r e s] by (simp add: prod_eq_iff)
next
  case (Resume i e)
  then show ?thesis by (simp add: resume_integrations)
qed

lemma run_integrations:
  "\<exists>new. integrations (snd (run L sec evs s)) = integrations s @ new"
proof (induction evs arbitrary: s)
  case Nil
  then show ?case by simp
next
  case (Cons ev evs)
  obtain new1 where one: "integrations (snd (step L sec ev s)) = integrations s @ new1"
    using step_integrations by blast
  obtain new2 where "integrations (snd (run L sec evs (snd (step L sec ev s))))
      = integrations (snd (step L sec ev s)) @ new2"
    using Cons.IH by blast
  then show ?case
    using one by (simp add: split_beta)
qed

text \<open>
  C10. \<^verbatim>\<open>GET /api/integrations\<close> answers every authenticated user, in every state, with
  the whole collection, whoever created its entries. When an authenticated user \<open>A\<close>
  posts an integration, it is answered 201 and stored with \<open>A\<close>'s \<^verbatim>\<open>userId\<close> and the
  \<^verbatim>\<open>name\<close>, \<^verbatim>\<open>type\<close> and \<^verbatim>\<open>config\<close> that \<open>A\<close> sent; the listing that any other
  authenticated user \<open>B\<close> asks for next contains it, \<^verbatim>\<open>config\<close> included, and it stays in
  the collection whatever happens afterwards. The workflow listing of the same \<open>B\<close> is
  filtered by \<^verbatim>\<open>userId\<close>.
\<close>

theorem integrations_shared:
  assumes "req_route ra = PostIntegrations"
    and "authenticateToken L sec (clock ea) (req_authorization ra) = Inr A"
    and "req_route rb = GetIntegrations"
    and "authenticateToken L sec (clock eb) (req_authorization rb) = Inr B"
  shows "\<exists>i. step L sec (Incoming ra ea) s
               = (Some (Response 201 (IntegrationJson i)),
                  s\<lparr>integrations := integrations s @ [i]\<rparr>)
           \<and> in_userId i = Some (jp_userId A)
           \<and> in_name i = req_body ra ''name'' \<and> in_type i = req_body ra ''type''
           \<and> in_config i = req_body ra ''config''
           \<and> step L sec (Incoming rb eb) (s\<lparr>integrations := integrations s @ [i]\<rparr>)
               = (Some (Response 200 (IntegrationsJson (integrations s @ [i]))),
                  s\<lparr>integrations := integrations s @ [i]\<rparr>)
           \<and> fst (run L sec [Incoming ra ea, Incoming rb eb] s)
               = [Some (Response 201 (IntegrationJson i)),
                  Some (Response 200 (IntegrationsJson (integrations s @ [i])))]
           \<and> (\<forall>evs. i \<in> set (integrations
                  (snd (run L sec evs (s\<lparr>integrations := integrations s @ [i]\<rparr>)))))
           \<and> (\<forall>s'. step L sec (Incoming rb eb) s'
                  = (Some (Response 200 (IntegrationsJson (integrations s'))), s'))
           \<and> fst (get_workflows B s)
               = Response 200
                   (WorkflowsJson (filter (\<lambda>w. wf_userId w = jp_userId B) (workflows s)))"
proof -
  define i where "i = \<lparr>in_id = uuid ea, in_userId = Some (jp_userId A),
      in_name = req_body ra ''name'', in_type = req_body ra ''type'',
      in_config = req_body ra ''config'', in_status = ''active'', in_description = None,
      in_createdAt = Some (date ea)\<rparr>"
  let ?s1 = "s\<lparr>integrations := integrations s @ [i]\<rparr>"
  have posted: "step L sec (Incoming ra ea) s = (Some (Response 201 (IntegrationJson i)), ?s1)"
    using assms(1,2)
    by (simp add: incoming_def protected_authenticated answered_def post_integrations_def
        Let_def i_def)
  have listed: "step L sec (Incoming rb eb) s'
      = (Some (Response 200 (IntegrationsJson (integrations s'))), s')" for s'
    using assms(3,4)
    by (simp add: incoming_def protected_authenticated answered_def get_integrations_def)
  have both: "fst (run L sec [Incoming ra ea, Incoming rb eb] s)
      = [Some (Response 201 (IntegrationJson i)),
         Some (Response 200 (IntegrationsJson (integrations s @ [i])))]"
    using posted listed [of ?s1] by simp
  have stays: "i \<in> set (integrations (snd (run L sec evs ?s1)))" for evs
    using run_integrations [of L sec evs ?s1] by auto
  have fields: "in_userId i = Some (jp_userId A)" "in_name i = req_body ra ''name''"
    "in_type i = req_body ra ''type''" "in_config i = req_body ra ''config''"
    by (simp_all add: i_def)
  have mine: "fst (get_workflows B s)
      = Response 200 (WorkflowsJson (filter (\<lambda>w. wf_userId w = jp_userId B) (workflows s)))"
    by (simp add: get_workflows_def)
  have listed1: "step L sec (Incoming rb eb) ?s1
      = (Some (Response 200 (IntegrationsJson (integrations s @ [i]))), ?s1)"
    using listed [of ?s1] by simp
  show ?thesis
    using posted listed1 both stays fields listed mine
    by (intro exI [of _ i]) blast
qed

theorem integrations_shared_witness:
  "fst (run toy_libs None
          [Incoming (with_bearer PostIntegrations alice_token hook_body) (env_at ''i1'' 60),
           Incoming (with_bearer GetIntegrations bob_token empty_body) (env_at ''g'' 61)]
          init_state)
     = [Some (Response 201 (IntegrationJson
          \<lparr>in_id = ''i1'', in_userId = Some ''u1'', in_name = JStr ''Hook'',
           in_type = JStr ''webhook'',
           in_config = JObj [(''url'', JStr ''https://h.example''), (''key'', JStr ''s3cr3t'')],
           in_status = ''active'', in_description = None, in_createdAt = Some 60\<rparr>)),
        Some (Response 200 (IntegrationsJson
          (seeded_integrations @
           [\<lparr>in_id = ''i1'', in_userId = Some ''u1'', in_name = JStr ''Hook'',
             in_type = JStr ''webhook'',
             in_config = JObj [(''url'', JStr ''https://h.example''), (''key'', JStr ''s3cr3t'')],
             in_status = ''active'', in_description = None, in_createdAt = Some 60\<rparr>])))]"
proof -
  let ?ra = "with_bearer PostIntegrations alice_token hook_body"
  let ?rb = "with_bearer GetIntegrations bob_token empty_body"
  let ?hook = "\<lparr>in_id = ''i1'', in_userId = Some ''u1'', in_name = JStr ''Hook'',
           in_type = JStr ''webhook'',
           in_config = JObj [(''url'', JStr ''https://h.example''), (''key'', JStr ''s3cr3t'')],
           in_status = ''active'', in_description = None, in_createdAt = Some 60\<rparr>"
  from integrations_shared [of ?ra toy_libs None "env_at ''i1'' 60" alice ?rb "env_at ''g'' 61" bob
      init_state]
  obtain i where i: "step toy_libs None (Incoming ?ra (env_at ''i1'' 60)) init_state
        = (Some (Response 201 (IntegrationJson i)),
           init_state\<lparr>integrations := integrations init_state @ [i]\<rparr>)"
      "fst (run toy_libs None [Incoming ?ra (env_at ''i1'' 60), Incoming ?rb (env_at ''g'' 61)]
          init_state)
        = [Some (Response 201 (IntegrationJson i)),
           Some (Response 200 (IntegrationsJson (integrations init_state @ [i])))]"
    by (auto simp: with_bearer_sel alice_bearer bob_bearer)
  have "step toy_libs None (Incoming ?ra (env_at ''i1'' 60)) init_state
      = (Some (Response 201 (IntegrationJson ?hook)),
         init_state\<lparr>integrations := integrations init_state @ [?hook]\<rparr>)"
    by (simp add: incoming_def protected_def alice_bearer with_bearer_sel answered_def
        post_integrations_def Let_def hook_body_def env_at_def alice_def)
  with i(1) have "i = ?hook"
    by simp
  with i(2) show ?thesis
    by (simp add: init_state_def)
qed

section \<open>Deploying a template\<close>

text \<open>
  C7. For every template of the catalogue, \<^verbatim>\<open>POST /api/templates/:templateId/deploy\<close> with
  its id by an authenticated user answers 201 and appends to the workflow store a new
  workflow whose name and description are the template's, whose status is \<^verbatim>\<open>active\<close> and
  whose \<^verbatim>\<open>userId\<close> is the requester's.
\<close>

theorem template_deploy:
  assumes "t \<in> set templates"
    and "req_route r = PostTemplateDeploy (tp_id t)"
    and "authenticateToken L sec (clock e) (req_authorization r) = Inr u"
  shows "\<exists>w. step L sec (Incoming r e) s
               = (Some (Response 201 (DeployedJson ''Template deployed successfully'' w)),
                  s\<lparr>workflows := workflows s @ [w]\<rparr>)
           \<and> wf_name w = JStr (tp_name t) \<and> wf_description w = JStr (tp_description t)
           \<and> wf_status w = ''active'' \<and> wf_userId w = jp_userId u"
proof -
  have "t = templates ! 0 \<or> t = templates ! 1"
    using assms(1) by (simp add: templates_def)
  then have "find (\<lambda>t'. tp_id t' = tp_id t) templates = Some t"
    by (rule disjE) (simp_all add: templates_def)
  then show ?thesis
    using assms(2,3)
    by (simp add: incoming_def protected_authenticated answered_def deploy_template_def Let_def)
qed

theorem template_deploy_witness:
  "\<exists>w. step toy_libs None
          (Incoming (with_bearer (PostTemplateDeploy ''social-media-1'') alice_token empty_body)
             (env_at ''w2'' 9)) init_state
        = (Some (Response 201 (DeployedJson ''Template deployed successfully'' w)),
           init_state\<lparr>workflows := workflows init_state @ [w]\<rparr>)
      \<and> wf_name w = JStr ''Social Media Cross-posting''
      \<and> wf_description w = JStr ''Post content across multiple social platforms''
      \<and> wf_status w = ''active'' \<and> wf_userId w = ''u1''"
  using template_deploy [of "templates ! 1"
      "with_bearer (PostTemplateDeploy ''social-media-1'') alice_token empty_body"
      toy_libs None "env_at ''w2'' 9" alice init_state]
  by (simp add: with_bearer_sel alice_bearer templates_def alice_def)

section \<open>The status of an execution\<close>

lemma timer_indices_simps:
  "timer_indices [] = []"
  "timer_indices (xs @ ys) = timer_indices xs @ timer_indices ys"
  "timer_indices (SeedAdmin # ts) = timer_indices ts"
  "timer_indices (RegisterHash a b c # ts) = timer_indices ts"
  "timer_indices (LoginCompare u p # ts) = timer_indices ts"
  "timer_indices (ExecutionTimer i d # ts) = i # timer_indices ts"
  by (simp_all add: timer_indices_def)

lemma timer_indices_mem:
  "i \<in> set (timer_indices ts) \<longleftrightarrow> (\<exists>d. ExecutionTimer i d \<in> set ts)"
  by (induction ts) (auto simp: timer_indices_simps timer_indices_def split: task.splits)

lemma incoming_frame:
  assumes "incoming L sec r e s = (ro, s')"
  shows "(executions s' = executions s \<and> timer_indices (pending s') = timer_indices (pending s))
       \<or> (\<exists>x. ex_status x = ''running'' \<and> executions s' = executions s @ [x]
              \<and> pending s' = pending s @ [ExecutionTimer (length (executions s)) (clock e + 2000)])"
proof (cases "req_route r")
  case PostRegister
  then show ?thesis using assms
    by (auto simp: incoming_def timer_indices_simps split: sum.splits prod.splits)
next
  case PostLogin
  then show ?thesis using assms
    by (auto simp: incoming_def timer_indices_simps split: sum.splits prod.splits)
next
  case (PostExecution wid)
  then show ?thesis using assms
    by (auto simp: incoming_def protected_def answered_def post_execution_def Let_def
        split: sum.splits option.splits if_splits)
qed (use assms in \<open>auto simp: incoming_def protected_def answered_def get_workflows_def
        post_workflows_def get_integrations_def post_integrations_def get_templates_def
        deploy_template_def get_executions_def get_stats_def Let_def
        split: sum.splits option.splits\<close>)


lemma timer_indices_remove_other:
  assumes "j < length ps" and "\<And>i d. ps ! j \<noteq> ExecutionTimer i d"
  shows "timer_indices (take j ps @ drop (Suc j) ps) = timer_indices ps"
proof -
  have "ps = take j ps @ ps ! j # drop (Suc j) ps"
    using assms(1) by (simp add: id_take_nth_drop)
  then have "timer_indices ps = timer_indices (take j ps) @ timer_indices (ps ! j # drop (Suc j) ps)"
    by (metis timer_indices_simps(2))
  moreover have "timer_indices (ps ! j # drop (Suc j) ps) = timer_indices (drop (Suc j) ps)"
    using assms(2) by (cases "ps ! j") (auto simp: timer_indices_simps)
  ultimately show ?thesis
    by (simp add: timer_indices_simps)
qed

lemma timer_indices_remove_timer:
  assumes "j < length ps" and "ps ! j = ExecutionTimer idx due"
  shows "timer_indices ps
           = timer_indices (take j ps) @ idx # timer_indices (drop (Suc j) ps)"
proof -
  have "ps = take j ps @ ps ! j # drop (Suc j) ps"
    using assms(1) by (simp add: id_take_nth_drop)
  then have "timer_indices ps = timer_indices (take j ps) @ timer_indices (ps ! j # drop (Suc j) ps)"
    by (metis timer_indices_simps(2))
  then show ?thesis
    using assms(2) by (simp add: timer_indices_simps)
qed

lemma lifecycle_init: "lifecycle_inv init_state"
  by (simp add: lifecycle_inv_def init_state_def timer_indices_simps)

lemma lifecycle_listen: "lifecycle_inv s \<Longrightarrow> lifecycle_inv (listen s)"
  by (simp add: lifecycle_inv_def listen_def timer_indices_simps)

lemma lifecycle_incoming:
  assumes "lifecycle_inv s" and "incoming L sec r e s = (ro, s')"
  shows "lifecycle_inv s'"
  using incoming_frame [OF assms(2)]
proof
  assume "executions s' = executions s \<and> timer_indices (pending s') = timer_indices (pending s)"
  then show ?thesis using assms(1) by (simp add: lifecycle_inv_def)
next
  assume "\<exists>x. ex_status x = ''running'' \<and> executions s' = executions s @ [x]
              \<and> pending s' = pending s @ [ExecutionTimer (length (executions s)) (clock e + 2000)]"
  then obtain x where x: "ex_status x = ''running''" "executions s' = executions s @ [x]"
    "pending s' = pending s @ [ExecutionTimer (length (executions s)) (clock e + 2000)]"
    by blast
  have fresh: "length (executions s) \<notin> set (timer_indices (pending s))"
    using assms(1) by (auto simp: lifecycle_inv_def)
  show ?thesis
    unfolding lifecycle_inv_def
  proof (intro conjI ballI allI impI)
    show "distinct (timer_indices (pending s'))"
      using assms(1) fresh by (simp add: x timer_indices_simps lifecycle_inv_def)
  next
    fix i assume "i \<in> set (timer_indices (pending s'))"
    then show "i < length (executions s')"
      using assms(1) by (auto simp: x timer_indices_simps lifecycle_inv_def)
  next
    fix i assume "i < length (executions s')"
    then show "ex_status (executions s' ! i)
        = (if i \<in> set (timer_indices (pending s')) then ''running'' else ''completed'')"
      using assms(1) x(1) fresh
      by (cases "i = length (executions s)")
         (auto simp: x(2,3) timer_indices_simps lifecycle_inv_def nth_append)
  qed
qed

lemma lifecycle_resume:
  assumes "lifecycle_inv s" and "resume L sec j e s = (ro, s')"
  shows "lifecycle_inv s'"
proof (cases "j < length (pending s)")
  case False
  then show ?thesis using assms by (simp add: resume_def)
next
  case inrange: True
  let ?rest = "take j (pending s) @ drop (Suc j) (pending s)"
  show ?thesis
  proof (cases "pending s ! j")
    case SeedAdmin
    then have "executions s' = executions s" "pending s' = ?rest"
      using assms(2) inrange by (auto simp: resume_def seed_admin_def)
    moreover have "timer_indices ?rest = timer_indices (pending s)"
      using inrange SeedAdmin by (intro timer_indices_remove_other) simp_all
    ultimately show ?thesis using assms(1) by (simp add: lifecycle_inv_def)
  next
    case (RegisterHash em pw nm)
    then have "executions s' = executions s" "pending s' = ?rest"
      using assms(2) inrange
      by (auto simp: resume_def register_resume_def answered_def Let_def split: jsval.splits)
    moreover have "timer_indices ?rest = timer_indices (pending s)"
      using inrange RegisterHash by (intro timer_indices_remove_other) simp_all
    ultimately show ?thesis using assms(1) by (simp add: lifecycle_inv_def)
  next
    case (LoginCompare u pw)
    then have "executions s' = executions s" "pending s' = ?rest"
      using assms(2) inrange by (auto simp: resume_def)
    moreover have "timer_indices ?rest = timer_indices (pending s)"
      using inrange LoginCompare by (intro timer_indices_remove_other) simp_all
    ultimately show ?thesis using assms(1) by (simp add: lifecycle_inv_def)
  next
    case (ExecutionTimer idx due)
    show ?thesis
    proof (cases "due \<le> clock e")
      case False
      then show ?thesis using assms inrange ExecutionTimer by (simp add: resume_def)
    next
      case True
      have split: "timer_indices (pending s)
          = timer_indices (take j (pending s)) @ idx # timer_indices (drop (Suc j) (pending s))"
        using inrange ExecutionTimer by (rule timer_indices_remove_timer)
      have rest: "timer_indices ?rest
          = timer_indices (take j (pending s)) @ timer_indices (drop (Suc j) (pending s))"
        by (simp add: timer_indices_simps)
      have dist: "distinct (timer_indices (pending s))"
        and bound: "\<forall>i \<in> set (timer_indices (pending s)). i < length (executions s)"
        and stat: "\<forall>i < length (executions s). ex_status (executions s ! i)
             = (if i \<in> set (timer_indices (pending s)) then ''running'' else ''completed'')"
        using assms(1) by (simp_all add: lifecycle_inv_def)
      have gone: "idx \<notin> set (timer_indices ?rest)"
        using dist unfolding split rest by auto
      have others: "set (timer_indices (pending s)) = insert idx (set (timer_indices ?rest))"
        unfolding split rest by auto
      have idx: "idx < length (executions s)"
        using bound others by simp
      obtain x' where s': "pending s' = ?rest" "executions s' = (executions s)[idx := x']"
        "ex_status x' = ''completed''"
        using assms(2) inrange ExecutionTimer True
        by (auto simp: resume_def execution_timeout_def Let_def)
      show ?thesis
        unfolding lifecycle_inv_def
      proof (intro conjI ballI allI impI)
        show "distinct (timer_indices (pending s'))"
          using dist unfolding s'(1) split rest by auto
      next
        fix i assume "i \<in> set (timer_indices (pending s'))"
        then show "i < length (executions s')"
          using bound others by (simp add: s')
      next
        fix i assume "i < length (executions s')"
        then have i: "i < length (executions s)" by (simp add: s')
        show "ex_status (executions s' ! i)
            = (if i \<in> set (timer_indices (pending s')) then ''running'' else ''completed'')"
        proof (cases "i = idx")
          case True
          then show ?thesis using gone idx by (simp add: s')
        next
          case False
          then have "i \<in> set (timer_indices (pending s')) \<longleftrightarrow> i \<in> set (timer_indices (pending s))"
            using others by (simp add: s'(1))
          then show ?thesis using stat i False by (simp add: s'(2))
        qed
      qed
    qed
  qed
qed

lemma lifecycle_step:
  "lifecycle_inv s \<Longrightarrow> lifecycle_inv (snd (step L sec ev s))"
proof (cases ev)
  case Listen
  assume "lifecycle_inv s"
  then show ?thesis using Listen by (simp add: lifecycle_listen)
next
  case (Incoming r e)
  assume "lifecycle_inv s"
  then show ?thesis using Incoming lifecycle_incoming [of s L sec r e] by (simp add: prod_eq_iff)
next
  case (Resume j e)
  assume "lifecycle_inv s"
  then show ?thesis using Resume lifecycle_resume [of s L sec j e] by (simp add: prod_eq_iff)
qed

lemma lifecycle_run:
  "lifecycle_inv s \<Longrightarrow> lifecycle_inv (snd (run L sec evs s))"
proof (induction evs arbitrary: s)
  case Nil
  then show ?case by simp
next
  case (Cons ev evs)
  from Cons.prems have "lifecycle_inv (snd (step L sec ev s))"
    by (rule lifecycle_step)
  then have "lifecycle_inv (snd (run L sec evs (snd (step L sec ev s))))"
    by (rule Cons.IH)
  then show ?case
    by (simp add: split_beta)
qed


text \<open>
  C3. In every state the server reaches from its initial state: a successful
  \<^verbatim>\<open>POST /api/executions/:workflowId\<close> (answer 201) returns an execution record with
  status \<^verbatim>\<open>running\<close>, appends that same record to the store and arms one timer for it,
  due 2000 ms after the clock reading of the request. An armed timer always points at a
  stored record that is still \<^verbatim>\<open>running\<close>; before it is due nothing happens, and when
  it fires its record is \<^verbatim>\<open>completed\<close>. Every stored record is \<^verbatim>\<open>running\<close> or
  \<^verbatim>\<open>completed\<close> and no other status ever occurs; a record is \<^verbatim>\<open>running\<close> exactly while
  its timer is armed.
\<close>

theorem execution_status_lifecycle:
  assumes "s = snd (run L sec evs init_state)"
  shows "(\<forall>r e wid j s'. req_route r = PostExecution wid
            \<and> step L sec (Incoming r e) s = (Some (Response 201 j), s') \<longrightarrow>
            (\<exists>x. j = ExecutionJson x \<and> ex_status x = ''running''
               \<and> executions s' = executions s @ [x]
               \<and> pending s' = pending s @ [ExecutionTimer (length (executions s)) (clock e + 2000)]))
       \<and> (\<forall>k idx due e'. k < length (pending s) \<and> pending s ! k = ExecutionTimer idx due \<longrightarrow>
            idx < length (executions s)
            \<and> ex_status (executions s ! idx) = ''running''
            \<and> (clock e' < due \<longrightarrow> step L sec (Resume k e') s = (None, s))
            \<and> (due \<le> clock e' \<longrightarrow>
                  ex_status (executions (snd (step L sec (Resume k e') s)) ! idx) = ''completed''))
       \<and> (\<forall>x \<in> set (executions s). ex_status x = ''running'' \<or> ex_status x = ''completed'')
       \<and> (\<forall>i < length (executions s).
            ex_status (executions s ! i) = ''running''
              \<longleftrightarrow> (\<exists>due. ExecutionTimer i due \<in> set (pending s)))"
proof -
  have inv: "lifecycle_inv s"
    unfolding assms by (rule lifecycle_run) (rule lifecycle_init)
  then have bound: "\<And>i. i \<in> set (timer_indices (pending s)) \<Longrightarrow> i < length (executions s)"
    and stat: "\<And>i. i < length (executions s) \<Longrightarrow> ex_status (executions s ! i)
         = (if i \<in> set (timer_indices (pending s)) then ''running'' else ''completed'')"
    by (simp_all add: lifecycle_inv_def)
  have created: "\<exists>x. j = ExecutionJson x \<and> ex_status x = ''running''
               \<and> executions s' = executions s @ [x]
               \<and> pending s' = pending s @ [ExecutionTimer (length (executions s)) (clock e + 2000)]"
    if "req_route r = PostExecution wid" "step L sec (Incoming r e) s = (Some (Response 201 j), s')"
    for r e wid j s'
    using that
    by (auto simp: incoming_def protected_def answered_def post_execution_def Let_def
        authenticateToken_def split: sum.splits option.splits if_splits)
  have fired: "idx < length (executions s) \<and> ex_status (executions s ! idx) = ''running''
            \<and> (clock e' < due \<longrightarrow> step L sec (Resume k e') s = (None, s))
            \<and> (due \<le> clock e' \<longrightarrow>
                  ex_status (executions (snd (step L sec (Resume k e') s)) ! idx) = ''completed'')"
    if "k < length (pending s)" "pending s ! k = ExecutionTimer idx due" for k idx due e'
  proof -
    have "ExecutionTimer idx due \<in> set (pending s)"
      using that by (metis nth_mem)
    then have mem: "idx \<in> set (timer_indices (pending s))"
      by (auto simp: timer_indices_mem)
    then have idx: "idx < length (executions s)"
      by (rule bound)
    then have "ex_status (executions s ! idx) = ''running''"
      using stat mem by simp
    then show ?thesis
      using that idx by (simp add: resume_def execution_timeout_def Let_def)
  qed
  have two: "ex_status x = ''running'' \<or> ex_status x = ''completed''" if "x \<in> set (executions s)" for x
  proof -
    from that obtain i where "i < length (executions s)" "x = executions s ! i"
      by (auto simp: in_set_conv_nth)
    then show ?thesis
      using stat [of i] by (cases "i \<in> set (timer_indices (pending s))") simp_all
  qed
  have armed: "ex_status (executions s ! i) = ''running''
      \<longleftrightarrow> (\<exists>due. ExecutionTimer i due \<in> set (pending s))" if "i < length (executions s)" for i
    using stat [OF that] by (simp add: timer_indices_mem [symmetric])
  show ?thesis
    using created fired two armed by blast
qed


lemma started_run_state:
  "snd (run toy_libs None started_run init_state)
     = init_state\<lparr>workflows :=
          [\<lparr>wf_id = ''w1'', wf_userId = ''u1'', wf_name = JUndefined, wf_description = JUndefined,
            wf_trigger = JUndefined, wf_actions = JArr [], wf_status = ''active'',
            wf_templateId = None, wf_createdAt = 40, wf_updatedAt = 40\<rparr>],
        executions :=
          [\<lparr>ex_id = ''x1'', ex_userId = ''u1'', ex_workflowId = ''w1'', ex_status = ''running'',
            ex_startedAt = 50, ex_completedAt = None, ex_logs = [ExecutionStarted JUndefined]\<rparr>],
        pending := [ExecutionTimer 0 2050]\<rparr>"
  by (simp add: started_run_def incoming_def protected_def alice_bearer with_bearer_sel
      answered_def post_workflows_def post_execution_def env_at_def empty_body_def alice_def
      init_state_def Let_def)

theorem execution_status_lifecycle_witness:
  "ex_status (executions (snd (run toy_libs None started_run init_state)) ! 0) = ''running''
   \<and> step toy_libs None (Resume 0 (env_at ''t'' 2049)) (snd (run toy_libs None started_run init_state))
       = (None, snd (run toy_libs None started_run init_state))
   \<and> ex_status (executions (snd (step toy_libs None (Resume 0 (env_at ''t'' 2050))
         (snd (run toy_libs None started_run init_state)))) ! 0) = ''completed''"
proof -
  let ?s = "snd (run toy_libs None started_run init_state)"
  note timer = execution_status_lifecycle [OF refl, of toy_libs None started_run,
      THEN conjunct2, THEN conjunct1, rule_format, of 0 0 2050]
  have armed: "0 < length (pending ?s) \<and> pending ?s ! 0 = ExecutionTimer 0 2050"
    by (simp add: started_run_state)
  show ?thesis
    using timer [OF armed, of "env_at ''t'' 2049"] timer [OF armed, of "env_at ''t'' 2050"]
    by (simp add: env_at_def)
qed

section \<open>The role of a registered user\<close>

lemma incoming_users:
  assumes "incoming L sec r e s = (ro, s')"
  shows "users s' = users s"
proof (cases "req_route r")
  case PostRegister
  then show ?thesis using assms
    by (auto simp: incoming_def split: sum.splits prod.splits)
next
  case PostLogin
  then show ?thesis using assms
    by (auto simp: incoming_def split: sum.splits prod.splits)
qed (use assms in \<open>auto simp: incoming_def protected_def answered_def get_workflows_def
        post_workflows_def get_integrations_def post_integrations_def get_templates_def
        deploy_template_def get_executions_def post_execution_def get_stats_def Let_def
        split: sum.splits option.splits\<close>)

lemma incoming_not_created:
  assumes "incoming L sec r e s = (Some (Response c (AuthJson m tok v)), s')"
  shows "False"
proof (cases "req_route r")
  case PostRegister
  then show ?thesis using assms
    by (auto simp: incoming_def register_begin_def Let_def
        split: sum.splits prod.splits if_splits option.splits)
next
  case PostLogin
  then show ?thesis using assms
    by (auto simp: incoming_def login_begin_def Let_def
        split: sum.splits prod.splits if_splits option.splits)
qed (use assms in \<open>auto simp: incoming_def protected_def answered_def get_workflows_def
        post_workflows_def get_integrations_def post_integrations_def get_templates_def
        deploy_template_def get_executions_def post_execution_def get_stats_def Let_def
        authenticateToken_def
        split: sum.splits option.splits if_splits\<close>)

lemma register_resume_role:
  "register_resume L sec e email (JStr p) name s
     = (Response 201
          (AuthJson ''User created successfully''
             (jwt_sign L \<lparr>jp_userId = uuid e, jp_email = email,
                          jp_role = (if users s = [] then ''admin'' else ''user'')\<rparr>
                (JWT_SECRET sec) ''24h'' (clock e))
             \<lparr>uv_id = uuid e, uv_email = email, uv_name = name,
              uv_role = (if users s = [] then ''admin'' else ''user'')\<rparr>),
        s\<lparr>users := users s @
            [\<lparr>user_id = uuid e, user_email = email, user_name = name,
              user_password = bcrypt_hash L p 12 (salt e),
              user_role = (if users s = [] then ''admin'' else ''user''),
              user_createdAt = date e\<rparr>]\<rparr>)"
  by (simp add: register_resume_def Let_def)

lemma register_resume_users:
  "\<exists>new. users (snd (register_resume L sec e email pw name s)) = users s @ new"
  by (cases pw) (simp_all add: register_resume_def Let_def)

lemma register_resume_created:
  assumes "register_resume L sec e email pw name s
             = (Response 201 (AuthJson ''User created successfully'' tok v), s')"
  shows "uv_role v = (if users s = [] then ''admin'' else ''user'')"
  using assms by (cases pw) (auto simp: register_resume_def Let_def)

lemma login_resume_not_created:
  "login_resume L sec e u pw \<noteq> Response 201 j"
  by (cases pw) (simp_all add: login_resume_def Let_def)

lemma resume_users:
  "\<exists>new. users (snd (resume L sec i e s)) = users s @ new"
proof (cases "i < length (pending s)")
  case False
  then show ?thesis by (simp add: resume_def)
next
  case True
  show ?thesis
  proof (cases "pending s ! i")
    case SeedAdmin
    then show ?thesis using True by (simp add: resume_def seed_admin_def)
  next
    case (RegisterHash em pw nm)
    then show ?thesis
      using True register_resume_users
        [of L sec e em pw nm "s\<lparr>pending := take i (pending s) @ drop (Suc i) (pending s)\<rparr>"]
      by (simp add: resume_def answered_def Let_def)
  next
    case (LoginCompare u pw)
    then show ?thesis using True by (simp add: resume_def)
  next
    case (ExecutionTimer idx due)
    then show ?thesis using True by (simp add: resume_def execution_timeout_def Let_def)
  qed
qed

lemma resume_created:
  assumes "resume L sec i e s = (Some (Response 201 (AuthJson ''User created successfully'' tok v)), s')"
  shows "uv_role v = (if users s = [] then ''admin'' else ''user'')"
proof (cases "i < length (pending s)")
  case False
  then show ?thesis using assms by (simp add: resume_def)
next
  case True
  show ?thesis
  proof (cases "pending s ! i")
    case SeedAdmin
    then show ?thesis using True assms by (simp add: resume_def)
  next
    case (RegisterHash em pw nm)
    then have "register_resume L sec e em pw nm
                 (s\<lparr>pending := take i (pending s) @ drop (Suc i) (pending s)\<rparr>)
               = (Response 201 (AuthJson ''User created successfully'' tok v), s')"
      using True assms by (simp add: resume_def answered_def prod_eq_iff Let_def)
    from register_resume_created [OF this] show ?thesis by simp
  next
    case (LoginCompare u pw)
    then show ?thesis using True assms login_resume_not_created [of L sec e u pw]
      by (simp add: resume_def)
  next
    case (ExecutionTimer idx due)
    then show ?thesis using True assms by (simp add: resume_def split: if_splits)
  qed
qed

lemma step_users:
  "\<exists>new. users (snd (step L sec ev s)) = users s @ new"
proof (cases ev)
  case Listen
  then show ?thesis by (simp add: listen_def)
next
  case (Incoming r e)
  then show ?thesis using incoming_users [of L sec r e s] by (simp add: prod_eq_iff)
next
  case (Resume i e)
  then show ?thesis using resume_users [of L sec i e s] by simp
qed

lemma step_created:
  assumes "step L sec ev s = (Some (Response 201 (AuthJson ''User created successfully'' tok v)), s')"
  shows "uv_role v = (if users s = [] then ''admin'' else ''user'')"
proof (cases ev)
  case Listen
  then show ?thesis using assms by simp
next
  case (Incoming r e)
  then show ?thesis using assms incoming_not_created [of L sec r e s] by simp
next
  case (Resume i e)
  then show ?thesis using assms resume_created [of L sec i e s] by simp
qed

lemma run_created_user:
  assumes "users s \<noteq> []"
    and "Some (Response 201 (AuthJson ''User created successfully'' tok v)) \<in> set (fst (run L sec evs s))"
  shows "uv_role v = ''user''"
  using assms
proof (induction evs arbitrary: s)
  case Nil
  then show ?case by simp
next
  case (Cons ev evs)
  obtain r s' where st: "step L sec ev s = (r, s')"
    by (cases "step L sec ev s")
  obtain new where "users s' = users s @ new"
    using step_users [of L sec ev s] st by auto
  then have nonempty: "users s' \<noteq> []"
    using Cons.prems(1) by simp
  from Cons.prems(2) st
  have "r = Some (Response 201 (AuthJson ''User created successfully'' tok v))
      \<or> Some (Response 201 (AuthJson ''User created successfully'' tok v))
          \<in> set (fst (run L sec evs s'))"
    by (auto simp: split_beta)
  then show ?case
  proof
    assume "r = Some (Response 201 (AuthJson ''User created successfully'' tok v))"
    then show ?thesis
      using step_created [of L sec ev s tok v s'] st Cons.prems(1) by simp
  next
    assume "Some (Response 201 (AuthJson ''User created successfully'' tok v))
          \<in> set (fst (run L sec evs s'))"
    then show ?thesis
      using Cons.IH [OF nonempty] by simp
  qed
qed


lemmas run_eval =
  incoming_def resume_def listen_def seed_admin_def register_begin_def register_resume_def
  login_begin_def login_resume_def post_register_def post_login_def credentials_def env_at_def
  toy_libs_def toy_sign_def toy_hash_def toy_compare_def JWT_SECRET_def init_state_def
  answered_def Let_def

text \<open>
  C1 as stated fails: from the initial state the startup callback runs and its hash
  resolves, which puts the default admin into the store; the first registration request
  after that succeeds with role \<^verbatim>\<open>user\<close>.
\<close>

theorem first_registration_after_startup_is_user:
  "fst (run toy_libs None
          [Listen, Resume 0 (env_at ''u0'' 10),
           Incoming (post_register ''al@x.org'' ''pw'' ''Al'') (env_at ''x'' 20),
           Resume 0 (env_at ''u1'' 30)]
          init_state)
     = [None, None, None,
        Some (Response 201
          (AuthJson ''User created successfully''
             ''u1|user|al@x.org|autoflow-secret-key-change-in-production''
             \<lparr>uv_id = ''u1'', uv_email = JStr ''al@x.org'', uv_name = JStr ''Al'',
              uv_role = ''user''\<rparr>))]"
  by (simp add: run_eval)

lemma startup_seeds_admin:
  "users (snd (run L sec [Listen, Resume 0 e0] init_state))
     = [\<lparr>user_id = uuid e0, user_email = JStr ''admin@autoflow.com'',
         user_name = JStr ''AutoFlow Admin'',
         user_password = bcrypt_hash L ''admin123'' 12 (salt e0),
         user_role = ''admin'', user_createdAt = date e0\<rparr>]"
  by (simp add: listen_def resume_def seed_admin_def init_state_def)

text \<open>
  C1, amended. A successful registration creates a user with role \<^verbatim>\<open>admin\<close> exactly when
  the user store is empty at the moment the record is created (when the password hash has
  resolved), and with role \<^verbatim>\<open>user\<close> otherwise; the stored record and the answer carry
  the same role. The startup callback puts the default admin into the initially empty
  store, and from any state whose store is not empty every successful registration of
  every run creates a user with role \<^verbatim>\<open>user\<close>.
\<close>

theorem registration_role:
  "(\<forall>ev s tok v s'.
      step L sec ev s = (Some (Response 201 (AuthJson ''User created successfully'' tok v)), s') \<longrightarrow>
      uv_role v = (if users s = [] then ''admin'' else ''user''))
   \<and> (\<forall>e email p name s.
        snd (register_resume L sec e email (JStr p) name s)
          = s\<lparr>users := users s @
               [\<lparr>user_id = uuid e, user_email = email, user_name = name,
                 user_password = bcrypt_hash L p 12 (salt e),
                 user_role = (if users s = [] then ''admin'' else ''user''),
                 user_createdAt = date e\<rparr>]\<rparr>)
   \<and> (\<forall>e0. users (snd (run L sec [Listen, Resume 0 e0] init_state))
          = [\<lparr>user_id = uuid e0, user_email = JStr ''admin@autoflow.com'',
              user_name = JStr ''AutoFlow Admin'',
              user_password = bcrypt_hash L ''admin123'' 12 (salt e0),
              user_role = ''admin'', user_createdAt = date e0\<rparr>])
   \<and> (\<forall>evs s tok v. users s \<noteq> []
         \<and> Some (Response 201 (AuthJson ''User created successfully'' tok v))
             \<in> set (fst (run L sec evs s)) \<longrightarrow>
        uv_role v = ''user'')"
proof (intro conjI allI impI)
  fix ev s tok v s'
  assume "step L sec ev s = (Some (Response 201 (AuthJson ''User created successfully'' tok v)), s')"
  then show "uv_role v = (if users s = [] then ''admin'' else ''user'')"
    by (rule step_created)
next
  fix e email p name s
  show "snd (register_resume L sec e email (JStr p) name s)
          = s\<lparr>users := users s @
               [\<lparr>user_id = uuid e, user_email = email, user_name = name,
                 user_password = bcrypt_hash L p 12 (salt e),
                 user_role = (if users s = [] then ''admin'' else ''user''),
                 user_createdAt = date e\<rparr>]\<rparr>"
    by (simp add: register_resume_role)
next
  fix e0
  show "users (snd (run L sec [Listen, Resume 0 e0] init_state))
          = [\<lparr>user_id = uuid e0, user_email = JStr ''admin@autoflow.com'',
              user_name = JStr ''AutoFlow Admin'',
              user_password = bcrypt_hash L ''admin123'' 12 (salt e0),
              user_role = ''admin'', user_createdAt = date e0\<rparr>]"
    by (rule startup_seeds_admin)
next
  fix evs s tok v
  assume "users s \<noteq> []
         \<and> Some (Response 201 (AuthJson ''User created successfully'' tok v))
             \<in> set (fst (run L sec evs s))"
  then show "uv_role v = ''user''"
    using run_created_user by blast
qed

theorem registration_role_witness:
  "(\<exists>tok v. fst (run toy_libs None registration_run init_state)
               = [None, Some (Response 201 (AuthJson ''User created successfully'' tok v))]
           \<and> uv_role v = ''admin'')
   \<and> users (snd (run toy_libs None startup_run init_state)) \<noteq> []
   \<and> (\<exists>tok v. fst (run toy_libs None registration_run
                      (snd (run toy_libs None startup_run init_state)))
               = [None, Some (Response 201 (AuthJson ''User created successfully'' tok v))]
           \<and> uv_role v = ''user'')"
proof -
  let ?s0 = "snd (run toy_libs None startup_run init_state)"
  note role = registration_role [of toy_libs None]
  obtain tok1 v1 where first:
    "fst (run toy_libs None registration_run init_state)
       = [None, Some (Response 201 (AuthJson ''User created successfully'' tok1 v1))]"
    by (simp add: registration_run_def run_eval)
  let ?s1 = "snd (step toy_libs None
      (Incoming (post_register ''al@x.org'' ''pw'' ''Al'') (env_at ''x'' 20)) init_state)"
  have "users ?s1 = []"
    by (simp add: run_eval)
  moreover have "\<exists>s'. step toy_libs None (Resume 0 (env_at ''u1'' 30)) ?s1
      = (Some (Response 201 (AuthJson ''User created successfully'' tok1 v1)), s')"
    using first by (simp add: registration_run_def split_beta prod_eq_iff)
  ultimately have admin: "uv_role v1 = ''admin''"
    using role [THEN conjunct1] by fastforce
  have seeded: "users ?s0 \<noteq> []"
    using role [THEN conjunct2, THEN conjunct2, THEN conjunct1, rule_format, of "env_at ''u0'' 10"]
    by (simp add: startup_run_def)
  obtain tok2 v2 where second:
    "fst (run toy_libs None registration_run ?s0)
       = [None, Some (Response 201 (AuthJson ''User created successfully'' tok2 v2))]"
    by (simp add: registration_run_def startup_run_def run_eval)
  then have "Some (Response 201 (AuthJson ''User created successfully'' tok2 v2))
      \<in> set (fst (run toy_libs None registration_run ?s0))"
    by simp
  with seeded have "uv_role v2 = ''user''"
    using role [THEN conjunct2, THEN conjunct2, THEN conjunct2] by blast
  with first admin seeded second show ?thesis
    by blast
qed

section \<open>Registering an email twice\<close>

lemma strict_eq_sym: "strict_eq a b = strict_eq b a"
  by (cases a; cases b) auto

lemma unique_emails_snoc:
  "unique_emails (us @ [x])
     \<longleftrightarrow> unique_emails us \<and> (\<forall>u \<in> set us. \<not> strict_eq (user_email u) (user_email x))"
  by (induction us) (auto simp: list_ex_iff strict_eq_sym)

lemma register_existing_email_rejected:
  assumes "\<exists>u \<in> set (users s). strict_eq (user_email u) (b ''email'')"
  shows "register_begin b s = Inl (Response 400 (ErrorJson ''Email, password, and name are required''))
       \<or> register_begin b s = Inl (Response 400 (ErrorJson ''User already exists''))"
proof -
  have "find (\<lambda>u. strict_eq (user_email u) (b ''email'')) (users s) \<noteq> None"
    using assms by (auto simp: find_None_iff)
  then show ?thesis
    by (auto simp: register_begin_def Let_def)
qed

lemma register_existing_email_step:
  assumes "req_route r = PostRegister"
    and "\<exists>u \<in> set (users s). strict_eq (user_email u) (req_body r ''email'')"
  shows "\<exists>m. step L sec (Incoming r e) s = (Some (Response 400 (ErrorJson m)), s)"
  using register_existing_email_rejected [of s "req_body r", OF assms(2)] assms(1)
  by (auto simp: incoming_def)

lemma register_uninterrupted:
  assumes "req_route r = PostRegister"
    and "register_begin (req_body r) s = Inr t"
  shows "run L sec [Incoming r e0, Resume (length (pending s)) e] s
           = ([None, Some (fst (register L sec e (req_body r) s))],
              snd (register L sec e (req_body r) s))"
proof -
  obtain email pw name where t: "t = (email, pw, name)"
    by (cases t)
  have "s\<lparr>pending := pending s\<rparr> = s"
    by simp
  then show ?thesis
    using assms t
    by (simp add: incoming_def resume_def register_def answered_def Let_def)
qed

lemma register_preserves_unique_emails:
  assumes "unique_emails (users s)"
  shows "unique_emails (users (snd (register L sec e b s)))"
proof (cases "register_begin b s")
  case (Inl r)
  then show ?thesis using assms by (simp add: register_def)
next
  case (Inr t)
  obtain email pw name where t: "t = (email, pw, name)"
    by (cases t)
  have none: "find (\<lambda>u. strict_eq (user_email u) email) (users s) = None"
    using Inr t by (auto simp: register_begin_def Let_def split: if_splits option.splits)
  then have fresh: "\<forall>u \<in> set (users s). \<not> strict_eq (user_email u) email"
    by (simp add: find_None_iff)
  show ?thesis
  proof (cases pw)
    case (JStr p)
    then show ?thesis
      using Inr t assms fresh
      by (simp add: register_def register_resume_def Let_def unique_emails_snoc)
  qed (use Inr t assms in \<open>simp_all add: register_def register_resume_def\<close>)
qed

text \<open>
  C5. A registration whose email is already in the store when the request arrives is
  answered 400 and changes nothing (\<open>register_existing_email_step\<close>), and a registration
  handled with nothing else between its \<^verbatim>\<open>await\<close> and its resumption keeps the emails of
  the store unique (\<open>register_preserves_unique_emails\<close>). The test for an existing user
  is made before \<^verbatim>\<open>await bcrypt.hash\<close> and the push after it: when a second request with
  the same email arrives while the first one is still hashing, both pass the test, both are
  answered 201, and the store ends with two users of that email.
\<close>

theorem concurrent_registration_duplicates_email:
  "run toy_libs None
     [Incoming (post_register ''al@x.org'' ''pw'' ''Al'') (env_at ''a'' 20),
      Incoming (post_register ''al@x.org'' ''pw2'' ''Al2'') (env_at ''b'' 21),
      Resume 0 (env_at ''u1'' 30),
      Resume 0 (env_at ''u2'' 31)]
     init_state
   = ([None, None,
       Some (Response 201
         (AuthJson ''User created successfully''
            ''u1|admin|al@x.org|autoflow-secret-key-change-in-production''
            \<lparr>uv_id = ''u1'', uv_email = JStr ''al@x.org'', uv_name = JStr ''Al'',
             uv_role = ''admin''\<rparr>)),
       Some (Response 201
         (AuthJson ''User created successfully''
            ''u2|user|al@x.org|autoflow-secret-key-change-in-production''
            \<lparr>uv_id = ''u2'', uv_email = JStr ''al@x.org'', uv_name = JStr ''Al2'',
             uv_role = ''user''\<rparr>))],
      init_state\<lparr>users :=
        [\<lparr>user_id = ''u1'', user_email = JStr ''al@x.org'', user_name = JStr ''Al'',
          user_password = ''na$pw'', user_role = ''admin'', user_createdAt = 30\<rparr>,
         \<lparr>user_id = ''u2'', user_email = JStr ''al@x.org'', user_name = JStr ''Al2'',
          user_password = ''na$pw2'', user_role = ''user'', user_createdAt = 31\<rparr>]\<rparr>)
   \<and> \<not> unique_emails (users (snd (run toy_libs None
        [Incoming (post_register ''al@x.org'' ''pw'' ''Al'') (env_at ''a'' 20),
         Incoming (post_register ''al@x.org'' ''pw2'' ''Al2'') (env_at ''b'' 21),
         Resume 0 (env_at ''u1'' 30),
         Resume 0 (env_at ''u2'' 31)]
        init_state)))"
  by (simp add: run_eval)

section \<open>Logging in\<close>

lemma split_on_absent: "c \<notin> set xs \<Longrightarrow> split_on c xs = [xs]"
  by (induction xs) auto

lemma split_on_first:
  "c \<notin> set a \<Longrightarrow> split_on c (a @ c # t) = a # split_on c t"
  by (induction a) auto

lemma header_token_bearer:
  assumes "CHR '' '' \<notin> set token"
  shows "header_token (Some (''Bearer '' @ token)) = Some token"
proof -
  have "split_on CHR '' '' (''Bearer'' @ CHR '' '' # token) = ''Bearer'' # split_on CHR '' '' token"
    by (rule split_on_first) simp
  then have "split_on CHR '' '' (''Bearer '' @ token) = [''Bearer'', token]"
    using assms by (simp add: split_on_absent)
  then show ?thesis
    by (simp add: header_token_def)
qed

lemma bearer_accepted:
  assumes "token \<noteq> []" and "CHR '' '' \<notin> set token"
    and "jwt_verify L token (JWT_SECRET sec) now = Some payload"
  shows "authenticateToken L sec now (Some (''Bearer '' @ token)) = Inr payload"
  unfolding authenticateToken_def header_token_bearer [OF assms(2)]
  using assms(1,3) by simp

text \<open>
  C6 as stated fails: after a user has registered with the password \<^verbatim>\<open>pw\<close>, a login
  with that user's email and the empty password, which does not match the stored hash,
  is answered 400, not 401.
\<close>

theorem login_with_empty_password_is_400:
  "fst (run toy_libs None
          [Incoming (post_register ''al@x.org'' ''pw'' ''Al'') (env_at ''x'' 20),
           Resume 0 (env_at ''u1'' 30),
           Incoming (post_login ''al@x.org'' []) (env_at ''l'' 40)]
          init_state)
     = [None,
        Some (Response 201
          (AuthJson ''User created successfully''
             ''u1|admin|al@x.org|autoflow-secret-key-change-in-production''
             \<lparr>uv_id = ''u1'', uv_email = JStr ''al@x.org'', uv_name = JStr ''Al'',
              uv_role = ''admin''\<rparr>)),
        Some (Response 400 (ErrorJson ''Email and password are required''))]"
  by (simp add: run_eval)

lemma coded_round_trip: "jwt_round_trip coded_libs issued now"
  by (simp add: jwt_round_trip_def coded_libs_def coded_sign_def coded_verify_def)


lemma login_token_accepted:
  assumes "jwt_round_trip L issued now"
  shows "authenticateToken L sec now
           (Some (''Bearer '' @ jwt_sign L payload (JWT_SECRET sec) ''24h'' issued)) = Inr payload"
proof (rule bearer_accepted)
  show "jwt_sign L payload (JWT_SECRET sec) ''24h'' issued \<noteq> []"
    using assms by (simp add: jwt_round_trip_def)
  show "CHR '' '' \<notin> set (jwt_sign L payload (JWT_SECRET sec) ''24h'' issued)"
    using assms by (simp add: jwt_round_trip_def)
  show "jwt_verify L (jwt_sign L payload (JWT_SECRET sec) ''24h'' issued) (JWT_SECRET sec) now
      = Some payload"
    using assms by (simp add: jwt_round_trip_def)
qed

text \<open>
  C6, amended. \<^verbatim>\<open>POST /api/auth/login\<close> answers 400 when the email or the password is
  missing or empty. Otherwise it answers 401 when no stored user has the email; when one
  has, the handler awaits \<^verbatim>\<open>bcrypt.compare\<close>, and for a string password it then answers
  401 if the password does not match the stored hash and 200 with a token if it does. The
  token is signed with \<open>JWT_SECRET\<close> over the user's id, email and role, and the
  authentication middleware accepts it: a request to a protected route that carries it
  as \<^verbatim>\<open>Bearer <token>\<close> reaches its handler with that payload. Here \<^verbatim>\<open>jsonwebtoken\<close> is
  any library that keeps its contract \<open>jwt_round_trip\<close> between the login and the request.
\<close>

theorem login_outcomes:
  assumes "req_route r = PostLogin"
  shows "(\<not> truthy (req_body r ''email'') \<or> \<not> truthy (req_body r ''password'') \<longrightarrow>
            step L sec (Incoming r e0) s
              = (Some (Response 400 (ErrorJson ''Email and password are required'')), s))
       \<and> (truthy (req_body r ''email'') \<and> truthy (req_body r ''password'')
           \<and> \<not> (\<exists>u \<in> set (users s). strict_eq (user_email u) (req_body r ''email'')) \<longrightarrow>
            step L sec (Incoming r e0) s
              = (Some (Response 401 (ErrorJson ''Invalid credentials'')), s))
       \<and> (\<forall>u. truthy (req_body r ''email'') \<and> truthy (req_body r ''password'')
              \<and> find (\<lambda>u. strict_eq (user_email u) (req_body r ''email'')) (users s) = Some u \<longrightarrow>
            step L sec (Incoming r e0) s
              = (None, s\<lparr>pending := pending s @ [LoginCompare u (req_body r ''password'')]\<rparr>))
       \<and> (\<forall>k s2 u p e. k < length (pending s2) \<and> pending s2 ! k = LoginCompare u (JStr p) \<longrightarrow>
            (\<not> bcrypt_compare L p (user_password u) \<longrightarrow>
               fst (step L sec (Resume k e) s2)
                 = Some (Response 401 (ErrorJson ''Invalid credentials'')))
          \<and> (bcrypt_compare L p (user_password u) \<longrightarrow>
               fst (step L sec (Resume k e) s2)
                 = Some (Response 200
                     (AuthJson ''Login successful''
                        (jwt_sign L \<lparr>jp_userId = user_id u, jp_email = user_email u,
                                     jp_role = user_role u\<rparr> (JWT_SECRET sec) ''24h'' (clock e))
                        \<lparr>uv_id = user_id u, uv_email = user_email u, uv_name = user_name u,
                         uv_role = user_role u\<rparr>))
             \<and> (\<forall>now. jwt_round_trip L (clock e) now \<longrightarrow>
                   authenticateToken L sec now
                     (Some (''Bearer '' @
                        jwt_sign L \<lparr>jp_userId = user_id u, jp_email = user_email u,
                                     jp_role = user_role u\<rparr> (JWT_SECRET sec) ''24h'' (clock e)))
                     = Inr \<lparr>jp_userId = user_id u, jp_email = user_email u,
                            jp_role = user_role u\<rparr>
                 \<and> (\<forall>handler s3.
                       protected L sec now
                         (Some (''Bearer '' @
                            jwt_sign L \<lparr>jp_userId = user_id u, jp_email = user_email u,
                                         jp_role = user_role u\<rparr> (JWT_SECRET sec) ''24h''
                              (clock e)))
                         handler s3
                         = handler \<lparr>jp_userId = user_id u, jp_email = user_email u,
                                    jp_role = user_role u\<rparr> s3))))"
proof (intro conjI allI impI)
  assume "\<not> truthy (req_body r ''email'') \<or> \<not> truthy (req_body r ''password'')"
  then show "step L sec (Incoming r e0) s
      = (Some (Response 400 (ErrorJson ''Email and password are required'')), s)"
    using assms by (auto simp: incoming_def login_begin_def Let_def)
next
  assume a: "truthy (req_body r ''email'') \<and> truthy (req_body r ''password'')
           \<and> \<not> (\<exists>u \<in> set (users s). strict_eq (user_email u) (req_body r ''email''))"
  then have "find (\<lambda>u. strict_eq (user_email u) (req_body r ''email'')) (users s) = None"
    by (auto simp: find_None_iff)
  then show "step L sec (Incoming r e0) s
      = (Some (Response 401 (ErrorJson ''Invalid credentials'')), s)"
    using assms a by (simp add: incoming_def login_begin_def Let_def)
next
  fix u
  assume "truthy (req_body r ''email'') \<and> truthy (req_body r ''password'')
              \<and> find (\<lambda>u. strict_eq (user_email u) (req_body r ''email'')) (users s) = Some u"
  then show "step L sec (Incoming r e0) s
      = (None, s\<lparr>pending := pending s @ [LoginCompare u (req_body r ''password'')]\<rparr>)"
    using assms by (simp add: incoming_def login_begin_def Let_def)
next
  fix k and s2 :: state and u p e
  assume "k < length (pending s2) \<and> pending s2 ! k = LoginCompare u (JStr p)"
    and "\<not> bcrypt_compare L p (user_password u)"
  then show "fst (step L sec (Resume k e) s2)
      = Some (Response 401 (ErrorJson ''Invalid credentials''))"
    by (simp add: resume_def login_resume_def Let_def)
next
  fix k and s2 :: state and u p e
  assume "k < length (pending s2) \<and> pending s2 ! k = LoginCompare u (JStr p)"
    and "bcrypt_compare L p (user_password u)"
  then show "fst (step L sec (Resume k e) s2)
      = Some (Response 200
          (AuthJson ''Login successful''
             (jwt_sign L \<lparr>jp_userId = user_id u, jp_email = user_email u,
                          jp_role = user_role u\<rparr> (JWT_SECRET sec) ''24h'' (clock e))
             \<lparr>uv_id = user_id u, uv_email = user_email u, uv_name = user_name u,
              uv_role = user_role u\<rparr>))"
    by (simp add: resume_def login_resume_def Let_def)
next
  fix u e now
  assume "jwt_round_trip L (clock e) now"
  then show "authenticateToken L sec now
      (Some (''Bearer '' @
         jwt_sign L \<lparr>jp_userId = user_id u, jp_email = user_email u,
                      jp_role = user_role u\<rparr> (JWT_SECRET sec) ''24h'' (clock e)))
      = Inr \<lparr>jp_userId = user_id u, jp_email = user_email u, jp_role = user_role u\<rparr>"
    by (rule login_token_accepted)
next
  fix u e now and handler :: "jwt_payload \<Rightarrow> state \<Rightarrow> response \<times> state" and s3
  assume "jwt_round_trip L (clock e) now"
  then have "authenticateToken L sec now
      (Some (''Bearer '' @
         jwt_sign L \<lparr>jp_userId = user_id u, jp_email = user_email u,
                      jp_role = user_role u\<rparr> (JWT_SECRET sec) ''24h'' (clock e)))
      = Inr \<lparr>jp_userId = user_id u, jp_email = user_email u, jp_role = user_role u\<rparr>"
    by (rule login_token_accepted)
  then show "protected L sec now
      (Some (''Bearer '' @
         jwt_sign L \<lparr>jp_userId = user_id u, jp_email = user_email u,
                      jp_role = user_role u\<rparr> (JWT_SECRET sec) ''24h'' (clock e)))
      handler s3
      = handler \<lparr>jp_userId = user_id u, jp_email = user_email u, jp_role = user_role u\<rparr> s3"
    by (rule protected_authenticated)
qed


lemma registered_coded:
  "snd (run coded_libs None registration_run init_state)
     = \<lparr>users =
         [\<lparr>user_id = ''u1'', user_email = JStr ''al@x.org'', user_name = JStr ''Al'',
           user_password = ''na$pw'', user_role = ''admin'', user_createdAt = 30\<rparr>],
        workflows = [], executions = [], integrations = seeded_integrations, pending = []\<rparr>"
  by (simp add: registration_run_def coded_libs_def run_eval)

theorem login_outcomes_witness:
  "fst (step coded_libs None (Incoming (post_login ''al@x.org'' []) (env_at ''l'' 40))
          (snd (run coded_libs None registration_run init_state)))
     = Some (Response 400 (ErrorJson ''Email and password are required''))
   \<and> fst (step coded_libs None (Incoming (post_login ''ghost@x.org'' ''pw'') (env_at ''l'' 40))
          (snd (run coded_libs None registration_run init_state)))
     = Some (Response 401 (ErrorJson ''Invalid credentials''))
   \<and> fst (run coded_libs None
          [Incoming (post_login ''al@x.org'' ''bad'') (env_at ''l'' 40),
           Resume 0 (env_at ''l'' 41)]
          (snd (run coded_libs None registration_run init_state)))
     = [None, Some (Response 401 (ErrorJson ''Invalid credentials''))]
   \<and> fst (run coded_libs None
          [Incoming (post_login ''al@x.org'' ''pw'') (env_at ''l'' 40),
           Resume 0 (env_at ''l'' 41),
           Incoming (with_bearer GetWorkflows
                       (jwt_sign coded_libs
                          \<lparr>jp_userId = ''u1'', jp_email = JStr ''al@x.org'', jp_role = ''admin''\<rparr>
                          (JWT_SECRET None) ''24h'' 41)
                       empty_body)
             (env_at ''g'' 50)]
          (snd (run coded_libs None registration_run init_state)))
     = [None,
        Some (Response 200
          (AuthJson ''Login successful''
             (jwt_sign coded_libs
                \<lparr>jp_userId = ''u1'', jp_email = JStr ''al@x.org'', jp_role = ''admin''\<rparr>
                (JWT_SECRET None) ''24h'' 41)
             \<lparr>uv_id = ''u1'', uv_email = JStr ''al@x.org'', uv_name = JStr ''Al'',
              uv_role = ''admin''\<rparr>)),
        Some (Response 200 (WorkflowsJson []))]"
proof -
  let ?reg = "snd (run coded_libs None registration_run init_state)"
  let ?u = "\<lparr>user_id = ''u1'', user_email = JStr ''al@x.org'', user_name = JStr ''Al'',
            user_password = ''na$pw'', user_role = ''admin'', user_createdAt = 30\<rparr>"
  let ?p = "\<lparr>jp_userId = ''u1'', jp_email = JStr ''al@x.org'', jp_role = ''admin''\<rparr>"
  let ?tok = "jwt_sign coded_libs ?p (JWT_SECRET None) ''24h'' 41"
  have users: "users ?reg = [?u]" and pend: "pending ?reg = []"
    by (simp_all add: registered_coded)
  have route: "req_route (post_login m pw) = PostLogin" for m pw
    by (simp add: post_login_def)
  have bodies: "req_body (post_login m pw) ''email'' = JStr m"
    "req_body (post_login m pw) ''password'' = JStr pw" for m pw
    by (simp_all add: post_login_def credentials_def)
  have compare: "bcrypt_compare coded_libs = toy_compare"
    by (simp add: coded_libs_def)
  note out = login_outcomes [OF route, of _ _ coded_libs None "env_at ''l'' 40" ?reg]
  have missing: "step coded_libs None (Incoming (post_login ''al@x.org'' []) (env_at ''l'' 40)) ?reg
      = (Some (Response 400 (ErrorJson ''Email and password are required'')), ?reg)"
    using out [of "''al@x.org''" "[]", THEN conjunct1] by (simp add: bodies)
  have unknown: "step coded_libs None (Incoming (post_login ''ghost@x.org'' ''pw'') (env_at ''l'' 40))
        ?reg
      = (Some (Response 401 (ErrorJson ''Invalid credentials'')), ?reg)"
    using out [of "''ghost@x.org''" "''pw''", THEN conjunct2, THEN conjunct1]
    by (simp add: bodies users)
  have awaits: "step coded_libs None (Incoming (post_login ''al@x.org'' pw) (env_at ''l'' 40)) ?reg
      = (None, ?reg\<lparr>pending := [LoginCompare ?u (JStr pw)]\<rparr>)" if "pw \<noteq> []" for pw
    using out [of "''al@x.org''" pw, THEN conjunct2, THEN conjunct2, THEN conjunct1, rule_format, of ?u]
      that
    by (simp add: bodies users pend)
  note resumed = out [of "''al@x.org''" "''pw''", THEN conjunct2, THEN conjunct2, THEN conjunct2,
      rule_format, of 0 _ ?u _ "env_at ''l'' 41"]
  have wrong: "fst (step coded_libs None (Resume 0 (env_at ''l'' 41))
        (?reg\<lparr>pending := [LoginCompare ?u (JStr ''bad'')]\<rparr>))
      = Some (Response 401 (ErrorJson ''Invalid credentials''))"
    using resumed [of "?reg\<lparr>pending := [LoginCompare ?u (JStr ''bad'')]\<rparr>" "''bad''",
        THEN conjunct1]
    by (simp add: compare toy_compare_def)
  have matches: "bcrypt_compare coded_libs ''pw'' (user_password ?u)"
    by (simp add: compare toy_compare_def)
  have armed: "0 < length (pending (?reg\<lparr>pending := [LoginCompare ?u (JStr ''pw'')]\<rparr>))
      \<and> pending (?reg\<lparr>pending := [LoginCompare ?u (JStr ''pw'')]\<rparr>) ! 0
          = LoginCompare ?u (JStr ''pw'')"
    by simp
  note good = resumed [of "?reg\<lparr>pending := [LoginCompare ?u (JStr ''pw'')]\<rparr>" "''pw''",
      OF armed, THEN conjunct2, rule_format, OF matches]
  have right: "fst (step coded_libs None (Resume 0 (env_at ''l'' 41))
        (?reg\<lparr>pending := [LoginCompare ?u (JStr ''pw'')]\<rparr>))
      = Some (Response 200 (AuthJson ''Login successful'' ?tok
          \<lparr>uv_id = ''u1'', uv_email = JStr ''al@x.org'', uv_name = JStr ''Al'',
           uv_role = ''admin''\<rparr>))"
    using good [THEN conjunct1] by (simp add: env_at_def)
  have accepted: "protected coded_libs None 50 (Some (''Bearer '' @ ?tok)) get_workflows ?reg
      = get_workflows ?p ?reg"
    using good [THEN conjunct2, rule_format, OF coded_round_trip [of _ 50], THEN conjunct2,
        rule_format, of get_workflows ?reg]
    by (simp add: env_at_def)
  have listing: "step coded_libs None (Incoming (with_bearer GetWorkflows ?tok empty_body)
        (env_at ''g'' 50)) ?reg = (Some (Response 200 (WorkflowsJson [])), ?reg)"
    using accepted
    by (simp add: incoming_def with_bearer_def answered_def get_workflows_def env_at_def
        registered_coded)
  have same: "snd (step coded_libs None (Resume 0 (env_at ''l'' 41))
        (?reg\<lparr>pending := [LoginCompare ?u (JStr ''pw'')]\<rparr>)) = ?reg"
    by (simp add: resume_def registered_coded)
  show ?thesis
    using missing unknown awaits [of "''bad''"] awaits [of "''pw''"] wrong right listing same
    by (simp add: split_beta)
qed

end
